theory Spec2Isabelle
  imports Main "HOL-Library.Monad_Syntax"
begin

section \<open>JavaScript values\<close>

text \<open>
  A JavaScript string is a sequence of UTF-16 code units; a code unit is modelled as a
  natural number. \<open>js\<close> turns an ASCII literal into such a sequence.
\<close>

type_synonym jsstring = "nat list"

definition js :: "string \<Rightarrow> jsstring" where
  "js s = map of_char s"

text \<open>
  A thrown value: an \<open>Error\<close> instance with its message, or anything else
  (\<open>err instanceof Error\<close> is false for it).
\<close>

datatype exn = Error jsstring | NonError

text \<open>\<open>try { body } catch (e) { handler }\<close>\<close>

definition try_catch :: "exn + 'a \<Rightarrow> (exn \<Rightarrow> exn + 'a) \<Rightarrow> exn + 'a" where
  "try_catch body handler = (case body of Inl e \<Rightarrow> handler e | Inr v \<Rightarrow> Inr v)"

text \<open>
  The white space of ECMAScript (\<open>WhiteSpace\<close> and \<open>LineTerminator\<close>), which
  \<open>String.prototype.trim\<close> strips and \<open>\s\<close> matches.
\<close>

definition isSpace :: "nat \<Rightarrow> bool" where
  "isSpace c = (c = 9 \<or> c = 10 \<or> c = 11 \<or> c = 12 \<or> c = 13 \<or> c = 32 \<or> c = 160 \<or> c = 5760
     \<or> (8192 \<le> c \<and> c \<le> 8202) \<or> c = 8232 \<or> c = 8233 \<or> c = 8239 \<or> c = 8287
     \<or> c = 12288 \<or> c = 65279)"

definition trim :: "jsstring \<Rightarrow> jsstring" where
  "trim s = rev (dropWhile isSpace (rev (dropWhile isSpace s)))"

text \<open>
  \<open>toLowerCase\<close> on the ASCII letters. The full Unicode mapping differs on code units
  above 127 only, and sends none of them to an ASCII letter other than \<open>i\<close> and \<open>k\<close>.
\<close>

definition lowerChar :: "nat \<Rightarrow> nat" where
  "lowerChar c = (if 65 \<le> c \<and> c \<le> 90 then c + 32 else c)"

definition toLowerCase :: "jsstring \<Rightarrow> jsstring" where
  "toLowerCase s = map lowerChar s"

definition startsWith :: "jsstring \<Rightarrow> jsstring \<Rightarrow> bool" where
  "startsWith s p = (take (length p) s = p)"

fun includes' :: "jsstring \<Rightarrow> jsstring \<Rightarrow> bool" where
  "includes' [] sub = (sub = [])"
| "includes' (c # cs) sub = (startsWith (c # cs) sub \<or> includes' cs sub)"

text \<open>\<open>s.indexOf(c)\<close> for a one-character search string: \<open>-1\<close> when absent.\<close>

definition indexOf :: "jsstring \<Rightarrow> nat \<Rightarrow> int" where
  "indexOf s c = (if c \<in> set s then int (length (takeWhile (\<lambda>x. x \<noteq> c) s)) else - 1)"

text \<open>\<open>s.substring(a, b)\<close>: both ends clamped to \<open>[0, length]\<close>, swapped when \<open>a > b\<close>.\<close>

definition substring :: "jsstring \<Rightarrow> int \<Rightarrow> int \<Rightarrow> jsstring" where
  "substring s a b =
     (let n = int (length s);
          a' = max 0 (min a n);
          b' = max 0 (min b n);
          lo = min a' b';
          hi = max a' b'
      in take (nat (hi - lo)) (drop (nat lo) s))"

text \<open>\<open>s.split(c)\<close> for a one-character separator, and \<open>xs[i]\<close> (\<open>undefined\<close> out of range).\<close>

fun split' :: "nat \<Rightarrow> jsstring \<Rightarrow> jsstring list" where
  "split' c [] = [[]]"
| "split' c (x # xs) =
     (if x = c then [] # split' c xs
      else (case split' c xs of [] \<Rightarrow> [[x]] | p # ps \<Rightarrow> (x # p) # ps))"

fun at_index :: "'a list \<Rightarrow> nat \<Rightarrow> 'a option" where
  "at_index [] i = None"
| "at_index (x # xs) 0 = Some x"
| "at_index (x # xs) (Suc i) = at_index xs i"

section \<open>types.ts\<close>

text \<open>
  \<open>Omit<Recipe, 'imageUrl'>\<close>, the type of the records the gateway returns, and
  \<open>Recipe\<close>, which adds the image. An optional field is an \<open>option\<close>.
\<close>

record RecipeText =
  id' :: jsstring
  recipeName :: jsstring
  description :: jsstring
  ingredients :: "jsstring list"
  instructions :: "jsstring list"
  imagePrompt :: jsstring
  imageError :: "bool option"

record Recipe = RecipeText +
  imageUrl :: "jsstring option"

section \<open>services/geminiService.ts\<close>

text \<open>
  The external model is reached through the SDK object \<open>ai.models\<close>. Its answers are not
  determined by the request, so each call carries the number of the call; a call either
  throws or returns. \<open>generateContent\<close> returns \<open>response.text\<close> (possibly
  \<open>undefined\<close>); \<open>generateImages\<close> returns the \<open>imageBytes\<close> of
  \<open>response.generatedImages\<close> (possibly \<open>undefined\<close>).
\<close>

datatype part = InlineData jsstring "jsstring option" | TextPart jsstring

record sdk =
  generateContent :: "nat \<Rightarrow> part list \<Rightarrow> exn + jsstring option"
  generateImages :: "nat \<Rightarrow> jsstring \<Rightarrow> exn + jsstring list option"

text \<open>Reading \<open>.trim\<close> of \<open>undefined\<close> throws a \<open>TypeError\<close> (an \<open>Error\<close>).\<close>

definition TypeError :: exn where
  "TypeError = Error (js ''Cannot read properties of undefined'')"

definition answer_is_yes :: "jsstring option \<Rightarrow> exn + bool" where
  "answer_is_yes text =
     (case text of None \<Rightarrow> Inl TypeError
      | Some t \<Rightarrow> Inr (includes' (toLowerCase (trim t)) (js ''yes'')))"

definition isFoodImage :: "sdk \<Rightarrow> nat \<Rightarrow> jsstring \<Rightarrow> jsstring \<Rightarrow> exn + bool" where
  "isFoodImage ai k base64ImageData mimeType =
     try_catch
       (let imagePart = InlineData mimeType (Some base64ImageData);
            textPart = TextPart (js ''Is this an image of food, edible ingredients, or a dish? Answer with only 'yes' or 'no'.'')
        in case generateContent ai k [imagePart, textPart] of
             Inl e \<Rightarrow> Inl e
           | Inr response \<Rightarrow> answer_is_yes response)
       (\<lambda>error. Inr False)"

definition generateRecipeImage :: "sdk \<Rightarrow> nat \<Rightarrow> jsstring \<Rightarrow> exn + jsstring" where
  "generateRecipeImage ai k prompt =
     (case generateImages ai k prompt of
        Inl e \<Rightarrow> Inl e
      | Inr generatedImages \<Rightarrow>
          (case generatedImages of
             Some (base64ImageBytes # _) \<Rightarrow> Inr (js ''data:image/jpeg;base64,'' @ base64ImageBytes)
           | _ \<Rightarrow> Inl (Error (js ''Image generation failed to return an image.''))))"

definition validateRecipeImage :: "sdk \<Rightarrow> nat \<Rightarrow> jsstring \<Rightarrow> jsstring \<Rightarrow> exn + bool" where
  "validateRecipeImage ai k recipeName' base64ImageData =
     try_catch
       (let mimeType = substring base64ImageData (indexOf base64ImageData 58 + 1) (indexOf base64ImageData 59);
            data = at_index (split' 44 base64ImageData) 1;
            imagePart = InlineData mimeType data;
            textPart = TextPart (js ''Does this image accurately depict \"'' @ recipeName'
              @ js ''\"? The image should look appealing and correctly represent the dish. Answer with only 'yes' or 'no'.'')
        in case generateContent ai k [imagePart, textPart] of
             Inl e \<Rightarrow> Inl e
           | Inr response \<Rightarrow> answer_is_yes response)
       (\<lambda>error. Inr False)"

text \<open>
  A JavaScript number is a double. The model tracks the non-negative integers up to
  \<open>2^53\<close>, which a double holds exactly; \<open>Untracked\<close> stands for a number whose value
  the model does not determine.
\<close>

datatype number = Integer nat | Untracked

definition as_number :: "nat \<Rightarrow> number" where
  "as_number n = (if n \<le> 2 ^ 53 then Integer n else Untracked)"

text \<open>\<open>x * k\<close> for a tracked \<open>x\<close> and a literal \<open>k\<close>.\<close>

definition times' :: "number \<Rightarrow> nat \<Rightarrow> number" where
  "times' x k = (case x of Integer n \<Rightarrow> as_number (n * k) | Untracked \<Rightarrow> Untracked)"

text \<open>The values \<open>JSON.parse\<close> returns.\<close>

datatype json = JNull | JBool bool | JNum number | JStr jsstring | JArr "json list"
  | JObj "(jsstring \<times> json) list"

text \<open>The decimal numeral of an array index, as a property name.\<close>

fun decimal :: "nat \<Rightarrow> jsstring" where
  "decimal n = (if n < 10 then [48 + n] else decimal (n div 10) @ [48 + n mod 10])"

declare decimal.simps [simp del]

text \<open>
  The own enumerable properties that an object spread \<open>{...v}\<close> copies: those of an
  object, the indexed elements of an array or a string, none of any other value.
\<close>

definition ownProperties :: "json \<Rightarrow> (jsstring \<times> json) list" where
  "ownProperties v =
     (case v of
        JObj props \<Rightarrow> props
      | JArr xs \<Rightarrow> map (\<lambda>(i, x). (decimal i, x)) (enumerate 0 xs)
      | JStr s \<Rightarrow> map (\<lambda>(i, c). (decimal i, JStr [c])) (enumerate 0 s)
      | _ \<Rightarrow> [])"

text \<open>\<open>{...props, k: v}\<close>: the property is overwritten in place, or added last.\<close>

fun setProperty :: "jsstring \<Rightarrow> json \<Rightarrow> (jsstring \<times> json) list \<Rightarrow> (jsstring \<times> json) list" where
  "setProperty k v [] = [(k, v)]"
| "setProperty k v ((k', v') # props) =
     (if k' = k then (k, v) # props else (k', v') # setProperty k v props)"

text \<open>\<open>v[k]\<close> for an own property, \<open>undefined\<close> as \<open>None\<close>.\<close>

definition property :: "jsstring \<Rightarrow> json \<Rightarrow> json option" where
  "property k v = map_of (ownProperties v) k"

text \<open>
  \<open>parseAndPrepareRecipes\<close>. \<open>JSON.parse\<close> and \<open>crypto.randomUUID\<close> are built in:
  the first is a parameter, the second the sequence of the identifiers drawn, of which
  \<open>n0\<close> were drawn before.
\<close>

definition parseAndPrepareRecipes ::
    "(jsstring \<Rightarrow> exn + json) \<Rightarrow> (nat \<Rightarrow> jsstring) \<Rightarrow> nat \<Rightarrow> jsstring \<Rightarrow> exn + json list" where
  "parseAndPrepareRecipes JSON_parse randomUUID' n0 jsonString =
     (case JSON_parse jsonString of
        Inl e \<Rightarrow> Inl e
      | Inr parsed \<Rightarrow>
          (case parsed of
             JArr xs \<Rightarrow>
               Inr (map (\<lambda>(n, recipe). JObj (setProperty (js ''id'') (JStr (randomUUID' n)) (ownProperties recipe)))
                      (enumerate n0 (take 3 xs)))
           | _ \<Rightarrow> Inl (Error (js ''AI did not return a valid list of recipes.''))))"

section \<open>App.tsx: the image acquisition loop\<close>

definition MAX_ATTEMPTS :: nat where
  "MAX_ATTEMPTS = 2"

definition refinedPrompt :: "Recipe \<Rightarrow> jsstring" where
  "refinedPrompt r = js ''A more accurate, photorealistic image of: '' @ recipeName r
     @ js ''. Focus on the dish itself, described as: '' @ description r"

text \<open>The local variables of \<open>generateAndSetImageForRecipe\<close> that the loop updates.\<close>

record loop_vars =
  currentRecipe :: Recipe
  imageUrlVar :: "jsstring option"
  isValid :: bool
  attempts :: nat

text \<open>
  One run of the loop body, after \<open>attempts++\<close>: the \<open>try\<close> block, whose \<open>catch\<close>
  sets \<open>isValid = false\<close>. The attempt number is the number of the SDK calls it makes.
\<close>

definition attempt :: "sdk \<Rightarrow> loop_vars \<Rightarrow> loop_vars" where
  "attempt ai v =
     (case generateRecipeImage ai (attempts v) (imagePrompt (currentRecipe v)) of
        Inl imgErr \<Rightarrow> v\<lparr>isValid := False\<rparr>
      | Inr generatedBase64 \<Rightarrow>
          (case validateRecipeImage ai (attempts v) (recipeName (currentRecipe v)) generatedBase64 of
             Inl imgErr \<Rightarrow> v\<lparr>isValid := False\<rparr>
           | Inr valid \<Rightarrow>
               if valid then v\<lparr>isValid := True, imageUrlVar := Some generatedBase64\<rparr>
               else if attempts v < MAX_ATTEMPTS
                 then v\<lparr>isValid := False,
                        currentRecipe := (currentRecipe v)\<lparr>imagePrompt := refinedPrompt (currentRecipe v)\<rparr>\<rparr>
                 else v\<lparr>isValid := False\<rparr>))"

function while_loop :: "sdk \<Rightarrow> loop_vars \<Rightarrow> loop_vars" where
  "while_loop ai v =
     (if \<not> isValid v \<and> attempts v < MAX_ATTEMPTS
      then while_loop ai (attempt ai (v\<lparr>attempts := attempts v + 1\<rparr>))
      else v)"
  by pat_completeness auto

definition initial_vars :: "Recipe \<Rightarrow> loop_vars" where
  "initial_vars recipe =
     \<lparr>currentRecipe = recipe, imageUrlVar = None, isValid = False, attempts = 0\<rparr>"

definition finalRecipeState :: "loop_vars \<Rightarrow> Recipe" where
  "finalRecipeState v = (currentRecipe v)
     \<lparr>imageUrl := (if isValid v then imageUrlVar v else None), imageError := Some (\<not> isValid v)\<rparr>"

termination while_loop
  by (relation "measure (\<lambda>(ai, v). MAX_ATTEMPTS - attempts v)")
     (auto simp: attempt_def split: sum.splits)

declare while_loop.simps [simp del]

section \<open>App.tsx: the application state and its handlers\<close>

text \<open>The React state of \<open>App\<close> that the handlers below read or write.\<close>

record app_state =
  image' :: "jsstring option"
  recipes :: "Recipe list option"
  isLoading :: bool
  error :: "jsstring option"
  savedRecipes :: "Recipe list"
  popularRecipes :: "Recipe list"

text \<open>
  \<open>generateAndSetImageForRecipe\<close>: the loop, then the three state updates. The
  state is the one current when the loop settles (the setters take \<open>prev\<close>).
\<close>

definition generateAndSetImageForRecipe :: "sdk \<Rightarrow> Recipe \<Rightarrow> app_state \<Rightarrow> app_state" where
  "generateAndSetImageForRecipe ai recipe s =
     (let v = while_loop ai (initial_vars recipe);
          final = finalRecipeState v;
          s1 = s\<lparr>recipes := map_option (map (\<lambda>r. if id' r = id' final then final else r)) (recipes s)\<rparr>;
          s2 = s1\<lparr>popularRecipes := map (\<lambda>r. if id' r = id' final then final else r) (popularRecipes s1)\<rparr>
      in if \<not> isValid v
         then s2\<lparr>error := Some (js ''We had trouble creating an image for one or more recipes. For best results, try starting over with a clearer photo of your ingredients.'')\<rparr>
         else s2)"

text \<open>The updater that \<open>handleSaveToggle\<close> passes to \<open>setSavedRecipes\<close>.\<close>

definition handleSaveToggle :: "Recipe \<Rightarrow> Recipe list \<Rightarrow> Recipe list" where
  "handleSaveToggle recipeToToggle prev =
     (let isSaved = list_ex (\<lambda>r. id' r = id' recipeToToggle) prev
      in if isSaved then filter (\<lambda>r. id' r \<noteq> id' recipeToToggle) prev
         else prev @ [recipeToToggle])"

text \<open>
  The recipe fetches of the gateway and \<open>crypto.randomUUID\<close>, as the handlers see them:
  a fetch throws or returns records typed \<open>Omit<Recipe, 'imageUrl'>\<close>; the \<open>n\<close>-th
  identifier drawn is \<open>randomUUID n\<close>.
\<close>

record gateway =
  getGenericRecipes :: "jsstring list \<Rightarrow> exn + RecipeText list"
  getRecipesFromImage :: "jsstring option \<Rightarrow> jsstring \<Rightarrow> jsstring list \<Rightarrow> jsstring list \<Rightarrow> exn + RecipeText list"
  randomUUID :: "nat \<Rightarrow> jsstring"

datatype fetch = GenericFetch "jsstring list" | ImageFetch "jsstring option" jsstring "jsstring list"

text \<open>
  What one run of a handler leaves behind: the state, the fetches it made, and the recipes
  for which it started an image loop (the loops run later, each ending in
  \<open>generateAndSetImageForRecipe\<close>).
\<close>

record handled =
  state :: app_state
  fetches :: "fetch list"
  started :: "Recipe list"

text \<open>\<open>{ ...r, id: crypto.randomUUID() }\<close> as a \<open>Recipe\<close>: no image yet.\<close>

definition withId :: "RecipeText \<Rightarrow> jsstring \<Rightarrow> Recipe" where
  "withId r uuid = \<lparr>id' = uuid, recipeName = recipeName r, description = description r,
     ingredients = ingredients r, instructions = instructions r, imagePrompt = imagePrompt r,
     imageError = imageError r, imageUrl = None\<rparr>"

definition not_food_notice :: jsstring where
  "not_food_notice = js ''This doesn't appear to be food. Here are some popular recipe ideas instead!''"

text \<open>\<open>err instanceof Error ? err.message : 'An unknown error occurred.'\<close>\<close>

definition error_message :: "exn \<Rightarrow> jsstring" where
  "error_message err = (case err of Error message \<Rightarrow> message | NonError \<Rightarrow> js ''An unknown error occurred.'')"

text \<open>
  \<open>handleLoadMoreRecipes\<close>; \<open>n0\<close> identifiers have been drawn before it runs. \<open>!image\<close>
  holds of \<open>null\<close> and of the empty string.
\<close>

definition handleLoadMoreRecipes :: "gateway \<Rightarrow> nat \<Rightarrow> app_state \<Rightarrow> handled" where
  "handleLoadMoreRecipes gw n0 s =
     (let isGenericFallback =
            (case error s of None \<Rightarrow> False | Some e \<Rightarrow> includes' e (js ''This doesn't appear to be food''));
          existingRecipeNames = (case recipes s of None \<Rightarrow> [] | Some rs \<Rightarrow> map recipeName rs);
          s1 = s\<lparr>isLoading := True, error := None, recipes := None\<rparr>;
          succeed = (\<lambda>recipesData call.
            let recipesWithPlaceholders = map (\<lambda>(n, r). withId r (randomUUID gw n)) (enumerate n0 recipesData);
                s2 = s1\<lparr>isLoading := False, recipes := Some recipesWithPlaceholders\<rparr>;
                s3 = (if isGenericFallback then s2\<lparr>error := Some not_food_notice\<rparr> else s2)
            in \<lparr>state = s3, fetches = [call], started = recipesWithPlaceholders\<rparr>);
          fail = (\<lambda>err call.
            \<lparr>state = s1\<lparr>error := Some (error_message err), isLoading := False\<rparr>,
             fetches = [call], started = []\<rparr>)
      in if isGenericFallback
         then (case getGenericRecipes gw existingRecipeNames of
                 Inl err \<Rightarrow> fail err (GenericFetch existingRecipeNames)
               | Inr recipesData \<Rightarrow> succeed recipesData (GenericFetch existingRecipeNames))
         else (case image' s of
                 None \<Rightarrow> \<lparr>state = s1, fetches = [], started = []\<rparr>
               | Some img \<Rightarrow>
                   if img = [] then \<lparr>state = s1, fetches = [], started = []\<rparr>
                   else
                     let mimeType = substring img (indexOf img 58 + 1) (indexOf img 59);
                         base64Data = at_index (split' 44 img) 1
                     in (case getRecipesFromImage gw base64Data mimeType existingRecipeNames [] of
                           Inl err \<Rightarrow> fail err (ImageFetch base64Data mimeType existingRecipeNames)
                         | Inr recipesData \<Rightarrow>
                             succeed recipesData (ImageFetch base64Data mimeType existingRecipeNames))))"

section \<open>components/RecipeCard.tsx: the instruction time parser\<close>

text \<open>
  \<open>timeRegex = /(?:(\d+)\s*to\s*)?(\d+)\s*(minute|minutes|hour|hours)/i\<close>. The matcher is
  the backtracking one of ECMAScript: each part of the pattern maps a string to the list of
  its possible matches (the text matched, the rest) in the order in which they are tried,
  longest first for a greedy quantifier; a sequence tries the continuations of the first
  match, then those of the next; the first result is the match.

  \<open>\d\<close> is an ASCII digit. Under the flag \<open>i\<close> (without \<open>u\<close>) a character of the string
  equals an ASCII letter of the pattern when their upper-case forms are equal, and no character
  above 127 has an ASCII upper-case form there.
\<close>

definition isDigit :: "nat \<Rightarrow> bool" where
  "isDigit c = (48 \<le> c \<and> c \<le> 57)"

definition upperChar :: "nat \<Rightarrow> nat" where
  "upperChar c = (if 97 \<le> c \<and> c \<le> 122 then c - 32 else c)"

text \<open>\<open>X*\<close> and \<open>X+\<close>, greedy, for a character class \<open>X\<close>; a literal under the flag \<open>i\<close>.\<close>

fun many :: "(nat \<Rightarrow> bool) \<Rightarrow> jsstring \<Rightarrow> (jsstring \<times> jsstring) list" where
  "many P [] = [([], [])]"
| "many P (c # cs) =
     (if P c then map (\<lambda>(m, r). (c # m, r)) (many P cs) @ [([], c # cs)] else [([], c # cs)])"

definition many1 :: "(nat \<Rightarrow> bool) \<Rightarrow> jsstring \<Rightarrow> (jsstring \<times> jsstring) list" where
  "many1 P s = filter (\<lambda>(m, r). m \<noteq> []) (many P s)"

definition lit :: "jsstring \<Rightarrow> jsstring \<Rightarrow> (jsstring \<times> jsstring) list" where
  "lit w s = (if map upperChar (take (length w) s) = map upperChar w
              then [(take (length w) s, drop (length w) s)] else [])"

text \<open>\<open>(minute|minutes|hour|hours)\<close>: the alternatives in their order.\<close>

definition unit_word :: "jsstring \<Rightarrow> (jsstring \<times> jsstring) list" where
  "unit_word s = lit (js ''minute'') s @ lit (js ''minutes'') s @ lit (js ''hour'') s @ lit (js ''hours'') s"

text \<open>\<open>(\d+)\s*(minute|minutes|hour|hours)\<close>, giving groups 2 and 3.\<close>

definition number_unit :: "jsstring \<Rightarrow> (jsstring \<times> jsstring) list" where
  "number_unit s = do {
     (g2, r1) \<leftarrow> many1 isDigit s;
     (w, r2) \<leftarrow> many isSpace r1;
     (g3, r3) \<leftarrow> unit_word r2;
     [(g2, g3)] }"

text \<open>\<open>(\d+)\s*to\s*\<close>, giving group 1 and the rest.\<close>

definition range_prefix :: "jsstring \<Rightarrow> (jsstring \<times> jsstring) list" where
  "range_prefix s = do {
     (g1, r1) \<leftarrow> many1 isDigit s;
     (w1, r2) \<leftarrow> many isSpace r1;
     (to, r3) \<leftarrow> lit (js ''to'') r2;
     (w2, r4) \<leftarrow> many isSpace r3;
     [(g1, r4)] }"

text \<open>\<open>(?: ... )?\<close> is greedy: the matches with the group first, then those without.\<close>

type_synonym groups = "jsstring option \<times> jsstring \<times> jsstring"

definition timeRegex_at :: "jsstring \<Rightarrow> groups list" where
  "timeRegex_at s =
     (do { (g1, r) \<leftarrow> range_prefix s; (g2, g3) \<leftarrow> number_unit r; [(Some g1, g2, g3)] })
     @ (do { (g2, g3) \<leftarrow> number_unit s; [(None, g2, g3)] })"

text \<open>\<open>instruction.match(timeRegex)\<close>: the first match at the first position that has one.\<close>

fun match' :: "jsstring \<Rightarrow> groups option" where
  "match' [] = (case timeRegex_at [] of m # _ \<Rightarrow> Some m | [] \<Rightarrow> None)"
| "match' (c # cs) = (case timeRegex_at (c # cs) of m # _ \<Rightarrow> Some m | [] \<Rightarrow> match' cs)"

text \<open>
  \<open>parseInt(s, 10)\<close> on a string that starts with a digit: the value of its leading
  digits. What \<open>parseInt\<close> makes of any other string is not tracked.
\<close>

definition digitsValue :: "jsstring \<Rightarrow> nat" where
  "digitsValue ds = foldl (\<lambda>a c. 10 * a + (c - 48)) 0 ds"

definition parseInt10 :: "jsstring \<Rightarrow> number" where
  "parseInt10 s = (let ds = takeWhile isDigit s in if ds = [] then Untracked else as_number (digitsValue ds))"

definition parseInstructionForTime :: "jsstring \<Rightarrow> jsstring \<times> number option" where
  "parseInstructionForTime instruction =
     (case match' instruction of
        Some (g1, g2, g3) \<Rightarrow>
          let value = parseInt10 g2;
              unit = toLowerCase g3;
              seconds = (if startsWith unit (js ''hour'') then times' value 3600 else times' value 60)
          in (instruction, Some seconds)
      | None \<Rightarrow> (instruction, None))"

section \<open>App.tsx: the shareable link\<close>

text \<open>
  \<open>generateShareableLink\<close> serializes the recipe, encodes the text with \<open>btoa\<close> and
  appends it to \<open>window.location.origin\<close> and \<open>window.location.pathname\<close>, which are
  parameters here.

  \<open>JSON.stringify\<close> of a recipe: the properties in the order in which the code builds the
  object (the fields of the response schema, then \<open>id\<close>, then the two image fields),
  those that are \<open>undefined\<close> left out; strings quoted as ECMAScript's
  \<open>QuoteJSONString\<close> does.
\<close>

text \<open>
  \<open>btoa\<close> and \<open>atob\<close> fail with a \<open>DOMException\<close> named \<open>InvalidCharacterError\<close>, which is
  an \<open>Error\<close>; the wording of its message is the browser's.
\<close>

definition InvalidCharacterError :: exn where
  "InvalidCharacterError = Error (js ''InvalidCharacterError'')"

definition hexDigit :: "nat \<Rightarrow> nat" where
  "hexDigit n = (if n < 10 then 48 + n else 87 + n)"

definition unicodeEscape :: "nat \<Rightarrow> jsstring" where
  "unicodeEscape c = [92, 117, hexDigit (c div 4096), hexDigit (c div 256 mod 16),
     hexDigit (c div 16 mod 16), hexDigit (c mod 16)]"

definition escapeChar :: "nat \<Rightarrow> jsstring" where
  "escapeChar c =
     (if c = 8 then [92, 98] else if c = 9 then [92, 116] else if c = 10 then [92, 110]
      else if c = 12 then [92, 102] else if c = 13 then [92, 114]
      else if c = 34 then [92, 34] else if c = 92 then [92, 92]
      else if c < 32 then unicodeEscape c else [c])"

definition isLeadingSurrogate :: "nat \<Rightarrow> bool" where
  "isLeadingSurrogate c = (55296 \<le> c \<and> c \<le> 56319)"

definition isTrailingSurrogate :: "nat \<Rightarrow> bool" where
  "isTrailingSurrogate c = (56320 \<le> c \<and> c \<le> 57343)"

fun quoteChars :: "jsstring \<Rightarrow> jsstring" where
  "quoteChars [] = []"
| "quoteChars [c] =
     (if isLeadingSurrogate c \<or> isTrailingSurrogate c then unicodeEscape c else escapeChar c)"
| "quoteChars (c # d # cs) =
     (if isLeadingSurrogate c \<and> isTrailingSurrogate d then c # d # quoteChars cs
      else if isLeadingSurrogate c \<or> isTrailingSurrogate c then unicodeEscape c @ quoteChars (d # cs)
      else escapeChar c @ quoteChars (d # cs))"

definition quoteJSONString :: "jsstring \<Rightarrow> jsstring" where
  "quoteJSONString s = [34] @ quoteChars s @ [34]"

fun commaSeparated :: "jsstring list \<Rightarrow> jsstring" where
  "commaSeparated [] = []"
| "commaSeparated [x] = x"
| "commaSeparated (x # y # zs) = x @ [44] @ commaSeparated (y # zs)"

definition stringifyStrings :: "jsstring list \<Rightarrow> jsstring" where
  "stringifyStrings xs = [91] @ commaSeparated (map quoteJSONString xs) @ [93]"

definition jsonMember :: "string \<Rightarrow> jsstring \<Rightarrow> jsstring" where
  "jsonMember key v = quoteJSONString (js key) @ [58] @ v"

definition JSON_stringify :: "Recipe \<Rightarrow> jsstring" where
  "JSON_stringify r =
     [123] @ commaSeparated
       ([jsonMember ''recipeName'' (quoteJSONString (recipeName r)),
         jsonMember ''description'' (quoteJSONString (description r)),
         jsonMember ''ingredients'' (stringifyStrings (ingredients r)),
         jsonMember ''instructions'' (stringifyStrings (instructions r)),
         jsonMember ''imagePrompt'' (quoteJSONString (imagePrompt r)),
         jsonMember ''id'' (quoteJSONString (id' r))]
        @ (case imageUrl r of None \<Rightarrow> [] | Some u \<Rightarrow> [jsonMember ''imageUrl'' (quoteJSONString u)])
        @ (case imageError r of None \<Rightarrow> [] | Some b \<Rightarrow> [jsonMember ''imageError'' (if b then js ''true'' else js ''false'')]))
     @ [125]"

text \<open>
  \<open>btoa\<close>: base64 of a string of code units up to 255; any other string makes it throw
  \<open>InvalidCharacterError\<close>.
\<close>

definition base64Char :: "nat \<Rightarrow> nat" where
  "base64Char i = (if i < 26 then 65 + i else if i < 52 then 71 + i else if i < 62 then i - 4
                   else if i = 62 then 43 else 47)"

fun base64Encode :: "nat list \<Rightarrow> jsstring" where
  "base64Encode [] = []"
| "base64Encode [a] = [base64Char (a div 4), base64Char (a mod 4 * 16), 61, 61]"
| "base64Encode [a, b] =
     [base64Char (a div 4), base64Char (a mod 4 * 16 + b div 16), base64Char (b mod 16 * 4), 61]"
| "base64Encode (a # b # c # bytes) =
     [base64Char (a div 4), base64Char (a mod 4 * 16 + b div 16),
      base64Char (b mod 16 * 4 + c div 64), base64Char (c mod 64)] @ base64Encode bytes"

definition btoa :: "jsstring \<Rightarrow> exn + jsstring" where
  "btoa s = (if list_ex (\<lambda>c. 255 < c) s then Inl InvalidCharacterError else Inr (base64Encode s))"

definition generateShareableLink :: "jsstring \<Rightarrow> jsstring \<Rightarrow> Recipe \<Rightarrow> exn + jsstring" where
  "generateShareableLink origin pathname recipe =
     (let recipeString = JSON_stringify recipe
      in case btoa recipeString of
           Inl e \<Rightarrow> Inl e
         | Inr encodedRecipe \<Rightarrow> Inr (origin @ pathname @ js ''?recipe='' @ encodedRecipe))"

text \<open>
  Reading the link back. \<open>URLSearchParams.get\<close> decodes the value: for a value without
  \<open>%\<close>, as base64 is, each \<open>+\<close> is read as a space. \<open>atob\<close> removes ASCII white space,
  then up to two \<open>=\<close> at the end of a text whose length is a multiple of 4, fails on a
  length of 1 modulo 4 or a character outside the alphabet, and decodes the rest.
\<close>

definition searchParamValue :: "jsstring \<Rightarrow> jsstring" where
  "searchParamValue raw = map (\<lambda>c. if c = 43 then 32 else c) raw"

definition base64Value :: "nat \<Rightarrow> nat option" where
  "base64Value c =
     (if 65 \<le> c \<and> c \<le> 90 then Some (c - 65)
      else if 97 \<le> c \<and> c \<le> 122 then Some (c - 71)
      else if 48 \<le> c \<and> c \<le> 57 then Some (c + 4)
      else if c = 43 then Some 62
      else if c = 47 then Some 63
      else None)"

fun base64Decode :: "nat list \<Rightarrow> nat list" where
  "base64Decode (a # b # c # d # vs) =
     [a * 4 + b div 16, b mod 16 * 16 + c div 4, c mod 4 * 64 + d] @ base64Decode vs"
| "base64Decode [a, b, c] = [a * 4 + b div 16, b mod 16 * 16 + c div 4]"
| "base64Decode [a, b] = [a * 4 + b div 16]"
| "base64Decode vs = []"

definition stripPadding :: "jsstring \<Rightarrow> jsstring" where
  "stripPadding d =
     (if length d mod 4 = 0
      then (case rev d of
              a # b # r \<Rightarrow> if a = 61 \<and> b = 61 then rev r else if a = 61 then rev (b # r) else d
            | _ \<Rightarrow> d)
      else d)"

definition atob :: "jsstring \<Rightarrow> exn + jsstring" where
  "atob s =
     (let d = stripPadding (filter (\<lambda>c. \<not> (c = 9 \<or> c = 10 \<or> c = 12 \<or> c = 13 \<or> c = 32)) s)
      in if length d mod 4 = 1 \<or> list_ex (\<lambda>c. base64Value c = None) d
         then Inl InvalidCharacterError
         else Inr (base64Decode (map (\<lambda>c. case base64Value c of Some v \<Rightarrow> v | None \<Rightarrow> 0) d)))"

section \<open>The duration pattern, in the words of the specification\<close>

text \<open>
  The pattern \<open>[<N> to] <N> (minute(s)|hour(s))\<close>, case-insensitive: \<open><N>\<close> is a
  non-empty run of digits, the parts may be separated by white space, and the unit gives the
  seconds it stands for. \<open>pattern_text t d k\<close>: the text \<open>t\<close> has this form, its second
  number is \<open>d\<close> and its unit stands for \<open>k\<close> seconds.
\<close>

definition is_number :: "jsstring \<Rightarrow> bool" where
  "is_number d = (d \<noteq> [] \<and> list_all isDigit d)"

definition blank :: "jsstring \<Rightarrow> bool" where
  "blank w = list_all isSpace w"

definition same_word :: "jsstring \<Rightarrow> jsstring \<Rightarrow> bool" where
  "same_word u w = (map upperChar u = map upperChar w)"

definition unit_seconds :: "jsstring \<Rightarrow> nat \<Rightarrow> bool" where
  "unit_seconds u k =
     ((same_word u (js ''minute'') \<or> same_word u (js ''minutes'')) \<and> k = 60 \<or>
      (same_word u (js ''hour'') \<or> same_word u (js ''hours'')) \<and> k = 3600)"

definition duration_phrase :: "jsstring \<Rightarrow> jsstring \<Rightarrow> nat \<Rightarrow> bool" where
  "duration_phrase t d k = (\<exists>w u. t = d @ w @ u \<and> is_number d \<and> blank w \<and> unit_seconds u k)"

definition pattern_text :: "jsstring \<Rightarrow> jsstring \<Rightarrow> nat \<Rightarrow> bool" where
  "pattern_text t d k =
     (duration_phrase t d k \<or>
      (\<exists>n w1 to w2 t'. t = n @ w1 @ to @ w2 @ t' \<and> is_number n \<and> blank w1 \<and>
         same_word to (js ''to'') \<and> blank w2 \<and> duration_phrase t' d k))"

text \<open>The pattern occurs at the start of \<open>s\<close>, at position \<open>i\<close> of \<open>s\<close>, and first at a position.\<close>

definition pattern_at :: "jsstring \<Rightarrow> jsstring \<Rightarrow> nat \<Rightarrow> bool" where
  "pattern_at s d k = (\<exists>t rest. s = t @ rest \<and> pattern_text t d k)"

definition occurs_at :: "jsstring \<Rightarrow> nat \<Rightarrow> jsstring \<Rightarrow> nat \<Rightarrow> bool" where
  "occurs_at s i d k = (i \<le> length s \<and> pattern_at (drop i s) d k)"

definition first_occurrence :: "jsstring \<Rightarrow> jsstring \<Rightarrow> nat \<Rightarrow> bool" where
  "first_occurrence s d k = (\<exists>i. occurs_at s i d k \<and> (\<forall>j < i. \<forall>d' k'. \<not> occurs_at s j d' k'))"

section \<open>Vocabulary of the properties and example values\<close>


text \<open>A recipe never has both an image and the failure flag.\<close>

definition image_invariant :: "Recipe \<Rightarrow> bool" where
  "image_invariant r = (\<not> (imageUrl r \<noteq> None \<and> imageError r = Some True))"

text \<open>The displayed recipe collections: the result list and the landing-page gallery.\<close>

definition displayed :: "app_state \<Rightarrow> Recipe list" where
  "displayed s = (case recipes s of None \<Rightarrow> [] | Some rs \<Rightarrow> rs) @ popularRecipes s"

text \<open>Two recipes agree on identifier, name, description, ingredients and instructions.\<close>

definition same_text :: "Recipe \<Rightarrow> Recipe \<Rightarrow> bool" where
  "same_text a b = (id' a = id' b \<and> recipeName a = recipeName b \<and> description a = description b \<and>
     ingredients a = ingredients b \<and> instructions a = instructions b)"

text \<open>Attempt 1 of the loop for \<open>r\<close> produced an image and the validator refused it.\<close>

definition first_validation_failed :: "sdk \<Rightarrow> Recipe \<Rightarrow> bool" where
  "first_validation_failed ai r =
     (case generateRecipeImage ai 1 (imagePrompt r) of
        Inl e \<Rightarrow> False
      | Inr generatedBase64 \<Rightarrow> validateRecipeImage ai 1 (recipeName r) generatedBase64 = Inr False)"

text \<open>
  How a collection differs once the loop for \<open>recipe\<close> has settled on \<open>final\<close>: same
  length, entries with another identifier untouched, entries with the identifier of
  \<open>recipe\<close> replaced by \<open>final\<close>.
\<close>

definition settled_list :: "Recipe \<Rightarrow> Recipe \<Rightarrow> Recipe list \<Rightarrow> Recipe list \<Rightarrow> bool" where
  "settled_list recipe final before after =
     (length after = length before \<and>
      (\<forall>i < length before.
         (id' (before ! i) \<noteq> id' recipe \<longrightarrow> after ! i = before ! i) \<and>
         (id' (before ! i) = id' recipe \<longrightarrow> after ! i = final)))"

text \<open>A sequence of save/unsave clicks, one recipe per click.\<close>

definition toggles :: "Recipe list \<Rightarrow> Recipe list \<Rightarrow> Recipe list" where
  "toggles saved rs = foldl (\<lambda>prev r. handleSaveToggle r prev) saved rs"

text \<open>The entries that \<open>parseAndPrepareRecipes\<close> makes of raw entries.\<close>

definition prepared :: "(nat \<Rightarrow> jsstring) \<Rightarrow> nat \<Rightarrow> json list \<Rightarrow> json list" where
  "prepared u n0 xs = map (\<lambda>(n, recipe). JObj (setProperty (js ''id'') (JStr (u n)) (ownProperties recipe))) (enumerate n0 xs)"

definition example_recipe :: Recipe where
  "example_recipe = \<lparr>id' = js ''r1'', recipeName = js ''Soup'', description = js ''Warm'',
     ingredients = [js ''water''], instructions = [js ''Simmer for 10 minutes''],
     imagePrompt = js ''A bowl of soup'', imageError = None, imageUrl = None\<rparr>"

text \<open>
  An SDK whose image call number \<open>k\<close> behaves as \<open>images k\<close> and whose model answers
  call number \<open>k\<close> with the text \<open>answer k\<close>; and one whose every call fails.
\<close>

definition sdk_answering :: "(nat \<Rightarrow> exn + jsstring list option) \<Rightarrow> (nat \<Rightarrow> jsstring) \<Rightarrow> sdk" where
  "sdk_answering images answer = \<lparr>generateContent = (\<lambda>k parts. Inr (Some (answer k))),
     generateImages = (\<lambda>k prompt. images k)\<rparr>"

definition sdk_failing :: sdk where
  "sdk_failing = \<lparr>generateContent = (\<lambda>k parts. if k = 0 then Inl NonError else Inr None),
     generateImages = (\<lambda>k prompt. Inl NonError)\<rparr>"

definition example_state :: app_state where
  "example_state = \<lparr>image' = None, recipes = Some [example_recipe], isLoading = False, error = None,
     savedRecipes = [], popularRecipes = []\<rparr>"

definition example_gateway :: gateway where
  "example_gateway = \<lparr>getGenericRecipes = (\<lambda>exclude. Inr [RecipeText.truncate example_recipe]),
     getRecipesFromImage = (\<lambda>d m exclude cuisines. Inr [RecipeText.truncate example_recipe]),
     randomUUID = (\<lambda>n. js ''uuid-'' @ replicate n 48)\<rparr>"

definition example_raw :: "json list" where
  "example_raw = map (\<lambda>c. JObj [(js ''recipeName'', JStr [c])]) [65, 66, 67, 68]"

definition example_uuid :: "nat \<Rightarrow> jsstring" where
  "example_uuid n = js ''uuid-'' @ replicate n 48"

text \<open>Auxiliary notions for the proof about the parser.\<close>

definition first_upper :: "jsstring \<Rightarrow> nat option" where
  "first_upper s = (case s of [] \<Rightarrow> None | c # _ \<Rightarrow> Some (upperChar c))"

definition phrase_at :: "jsstring \<Rightarrow> jsstring \<Rightarrow> nat \<Rightarrow> bool" where
  "phrase_at s d k = (\<exists>w u rest. s = d @ w @ u @ rest \<and> is_number d \<and> blank w \<and> unit_seconds u k)"

definition k_of :: "jsstring \<Rightarrow> nat" where
  "k_of g3 = (if startsWith (toLowerCase g3) (js ''hour'') then 3600 else 60)"

definition rest_after :: "jsstring \<Rightarrow> jsstring" where
  "rest_after s = dropWhile isSpace (dropWhile isDigit s)"

definition example_origin :: jsstring where
  "example_origin = js ''https://plateful.example''"

definition example_encoded :: jsstring where
  "example_encoded = js ''eyJyZWNpcGVOYW1lIjoiU291cCIsImRlc2NyaXB0aW9uIjoiV2FybSBzb3VwLCB+MTUgbWludXRlcyIsImluZ3JlZGllbnRzIjpbIndhdGVyIl0sImluc3RydWN0aW9ucyI6WyJTaW1tZXIgZm9yIDEwIG1pbnV0ZXMiXSwiaW1hZ2VQcm9tcHQiOiJBIGJvd2wgb2Ygc291cCIsImlkIjoicjEifQ==''"

section \<open>Properties\<close>

subsection \<open>The recipe normalizer\<close>

lemma map_of_setProperty:
  "map_of (setProperty k v props) k' = (if k' = k then Some v else map_of props k')"
  by (induction props) auto

lemma prepared_nth:
  "i < length xs \<Longrightarrow> prepared u n0 xs ! i = JObj (setProperty (js ''id'') (JStr (u (n0 + i))) (ownProperties (xs ! i)))"
  by (simp add: prepared_def nth_enumerate_eq)

lemma property_prepared:
  "i < length xs \<Longrightarrow> property k (prepared u n0 xs ! i) =
     (if k = js ''id'' then Some (JStr (u (n0 + i))) else property k (xs ! i))"
  by (simp add: prepared_nth property_def ownProperties_def map_of_setProperty)

lemma ids_prepared:
  "map (property (js ''id'')) (prepared u n0 xs) = map (\<lambda>n. Some (JStr (u n))) [n0..<n0 + length xs]"
proof (rule nth_equalityI)
  show "length (map (property (js ''id'')) (prepared u n0 xs)) = length (map (\<lambda>n. Some (JStr (u n))) [n0..<n0 + length xs])"
    by (simp add: prepared_def)
next
  fix i assume "i < length (map (property (js ''id'')) (prepared u n0 xs))"
  then have i: "i < length xs" by (simp add: prepared_def)
  then show "map (property (js ''id'')) (prepared u n0 xs) ! i = map (\<lambda>n. Some (JStr (u n))) [n0..<n0 + length xs] ! i"
    using property_prepared [OF i, of "js ''id''" u n0] by (simp add: prepared_def)
qed

text \<open>
  C4. When the gateway response parses as a list of raw recipes, \<open>parseAndPrepareRecipes\<close>
  returns the first 3 of them, or all when there are fewer: exactly 3 entries for a list of
  more than 3. Entry \<open>i\<close> of the output carries every property of entry \<open>i\<close> of the input
  other than \<open>id\<close>, so the entries keep their order; its \<open>id\<close> is the identifier drawn for
  it, and the identifiers of the batch are pairwise different as long as the identifiers
  drawn are; and an entry whose raw record has no \<open>imageUrl\<close>, as the response schema has
  it, has none in the output. All of this holds of a batch of any length.
\<close>

theorem normalizer_truncates:
  "JSON_parse jsonString = Inr (JArr raw) \<longrightarrow>
   (\<exists>out. parseAndPrepareRecipes JSON_parse u n0 jsonString = Inr out \<and>
      length out = min 3 (length raw) \<and>
      (3 < length raw \<longrightarrow> length out = 3) \<and>
      (\<forall>i < length out. property (js ''id'') (out ! i) = Some (JStr (u (n0 + i))) \<and>
         (\<forall>k. k \<noteq> js ''id'' \<longrightarrow> property k (out ! i) = property k (raw ! i)) \<and>
         (property (js ''imageUrl'') (raw ! i) = None \<longrightarrow> property (js ''imageUrl'') (out ! i) = None)) \<and>
      (inj_on u {n0 ..< n0 + length out} \<longrightarrow> distinct (map (property (js ''id'')) out)))"
proof
  assume p: "JSON_parse jsonString = Inr (JArr raw)"
  let ?out = "prepared u n0 (take 3 raw)"
  have r: "parseAndPrepareRecipes JSON_parse u n0 jsonString = Inr ?out"
    by (simp add: parseAndPrepareRecipes_def p prepared_def)
  have len: "length ?out = min 3 (length raw)" by (simp add: prepared_def min.commute)
  have nth: "property k (?out ! i) = (if k = js ''id'' then Some (JStr (u (n0 + i))) else property k (raw ! i))"
    if "i < length ?out" for i k
  proof -
    from that have i: "i < length (take 3 raw)" by (simp add: prepared_def)
    then have "take 3 raw ! i = raw ! i" by simp
    with property_prepared [OF i, of k u n0] show ?thesis by simp
  qed
  have img: "js ''imageUrl'' \<noteq> js ''id''" by (simp add: js_def)
  have d: "distinct (map (property (js ''id'')) ?out)" if "inj_on u {n0 ..< n0 + length ?out}"
  proof -
    have l: "length ?out = length (take 3 raw)" by (simp add: prepared_def)
    have "inj_on (\<lambda>n. Some (JStr (u n))) {n0 ..< n0 + length (take 3 raw)}"
      using that unfolding l by (auto simp: inj_on_def)
    then show ?thesis
      by (simp only: ids_prepared distinct_map distinct_upt set_upt simp_thms)
  qed
  show "\<exists>out. parseAndPrepareRecipes JSON_parse u n0 jsonString = Inr out \<and>
      length out = min 3 (length raw) \<and>
      (3 < length raw \<longrightarrow> length out = 3) \<and>
      (\<forall>i < length out. property (js ''id'') (out ! i) = Some (JStr (u (n0 + i))) \<and>
         (\<forall>k. k \<noteq> js ''id'' \<longrightarrow> property k (out ! i) = property k (raw ! i)) \<and>
         (property (js ''imageUrl'') (raw ! i) = None \<longrightarrow> property (js ''imageUrl'') (out ! i) = None)) \<and>
      (inj_on u {n0 ..< n0 + length out} \<longrightarrow> distinct (map (property (js ''id'')) out))"
  proof (intro exI [of _ ?out] conjI allI impI)
    show "parseAndPrepareRecipes JSON_parse u n0 jsonString = Inr ?out" by (rule r)
    show "length ?out = min 3 (length raw)" by (rule len)
    show "length ?out = 3" if "3 < length raw" using that len by simp
    show "property (js ''id'') (?out ! i) = Some (JStr (u (n0 + i)))" if "i < length ?out" for i
      using nth [OF that] by simp
    show "property k (?out ! i) = property k (raw ! i)" if "i < length ?out" "k \<noteq> js ''id''" for i k
      using nth [OF that(1)] that(2) by simp
    show "property (js ''imageUrl'') (?out ! i) = None"
      if "i < length ?out" "property (js ''imageUrl'') (raw ! i) = None" for i
      using nth [OF that(1), of "js ''imageUrl''"] img that(2) by simp
    show "distinct (map (property (js ''id'')) ?out)" if "inj_on u {n0 ..< n0 + length ?out}"
      using d [OF that] .
  qed
qed

lemma example_uuid_inj: "inj_on example_uuid A"
proof (rule inj_onI)
  fix x y assume "example_uuid x = example_uuid y"
  then have "length (replicate x (48::nat)) = length (replicate y (48::nat))"
    by (simp add: example_uuid_def)
  then show "x = y" by simp
qed

theorem normalizer_truncates_witness:
  "(\<exists>out. parseAndPrepareRecipes (\<lambda>s. Inr (JArr example_raw)) example_uuid 0 (js ''[]'') = Inr out \<and>
     length out = 3 \<and>
     property (js ''id'') (out ! 1) = Some (JStr (js ''uuid-0'')) \<and>
     property (js ''recipeName'') (out ! 1) = Some (JStr (js ''B'')) \<and>
     property (js ''imageUrl'') (out ! 1) = None \<and>
     distinct (map (property (js ''id'')) out)) \<and>
   (\<exists>out. parseAndPrepareRecipes (\<lambda>s. Inr (JArr (take 2 example_raw))) example_uuid 5 (js ''[]'') = Inr out \<and>
     length out = 2 \<and>
     property (js ''id'') (out ! 1) = Some (JStr (js ''uuid-000000'')) \<and>
     property (js ''recipeName'') (out ! 1) = Some (JStr (js ''B'')) \<and>
     property (js ''imageUrl'') (out ! 1) = None \<and>
     distinct (map (property (js ''id'')) out))"
proof -
  have r: "property (js ''recipeName'') (example_raw ! 1) = Some (JStr (js ''B''))"
          "property (js ''imageUrl'') (example_raw ! 1) = None"
          "js ''recipeName'' \<noteq> js ''id''"
          "example_uuid (0 + 1) = js ''uuid-0''"
          "example_uuid (5 + 1) = js ''uuid-000000''"
          "length example_raw = 4" "take 2 example_raw ! 1 = example_raw ! 1"
    by (simp_all add: example_raw_def property_def ownProperties_def js_def example_uuid_def numeral_eq_Suc)
  from normalizer_truncates [of "\<lambda>s. Inr (JArr example_raw)" "js ''[]''" example_raw example_uuid 0]
  obtain out where o: "parseAndPrepareRecipes (\<lambda>s. Inr (JArr example_raw)) example_uuid 0 (js ''[]'') = Inr out"
      "length out = min 3 (length example_raw)"
      "\<forall>i < length out. property (js ''id'') (out ! i) = Some (JStr (example_uuid (0 + i))) \<and>
         (\<forall>k. k \<noteq> js ''id'' \<longrightarrow> property k (out ! i) = property k (example_raw ! i)) \<and>
         (property (js ''imageUrl'') (example_raw ! i) = None \<longrightarrow> property (js ''imageUrl'') (out ! i) = None)"
      "inj_on example_uuid {0 ..< 0 + length out} \<longrightarrow> distinct (map (property (js ''id'')) out)"
    by blast
  from o(2) r(6) have l: "length out = 3" by simp
  with o(3) have "property (js ''id'') (out ! 1) = Some (JStr (example_uuid (0 + 1))) \<and>
         (\<forall>k. k \<noteq> js ''id'' \<longrightarrow> property k (out ! 1) = property k (example_raw ! 1)) \<and>
         (property (js ''imageUrl'') (example_raw ! 1) = None \<longrightarrow> property (js ''imageUrl'') (out ! 1) = None)"
    by simp
  with r o(1,4) l example_uuid_inj
  have A: "\<exists>out. parseAndPrepareRecipes (\<lambda>s. Inr (JArr example_raw)) example_uuid 0 (js ''[]'') = Inr out \<and>
     length out = 3 \<and>
     property (js ''id'') (out ! 1) = Some (JStr (js ''uuid-0'')) \<and>
     property (js ''recipeName'') (out ! 1) = Some (JStr (js ''B'')) \<and>
     property (js ''imageUrl'') (out ! 1) = None \<and>
     distinct (map (property (js ''id'')) out)"
    by (intro exI [of _ out]) simp
  from normalizer_truncates [of "\<lambda>s. Inr (JArr (take 2 example_raw))" "js ''[]''" "take 2 example_raw" example_uuid 5]
  obtain out2 where q: "parseAndPrepareRecipes (\<lambda>s. Inr (JArr (take 2 example_raw))) example_uuid 5 (js ''[]'') = Inr out2"
      "length out2 = min 3 (length (take 2 example_raw))"
      "\<forall>i < length out2. property (js ''id'') (out2 ! i) = Some (JStr (example_uuid (5 + i))) \<and>
         (\<forall>k. k \<noteq> js ''id'' \<longrightarrow> property k (out2 ! i) = property k (take 2 example_raw ! i)) \<and>
         (property (js ''imageUrl'') (take 2 example_raw ! i) = None \<longrightarrow> property (js ''imageUrl'') (out2 ! i) = None)"
      "inj_on example_uuid {5 ..< 5 + length out2} \<longrightarrow> distinct (map (property (js ''id'')) out2)"
    by blast
  from q(2) r(6) have l2: "length out2 = 2" by simp
  with q(3) have "property (js ''id'') (out2 ! 1) = Some (JStr (example_uuid (5 + 1))) \<and>
         (\<forall>k. k \<noteq> js ''id'' \<longrightarrow> property k (out2 ! 1) = property k (take 2 example_raw ! 1)) \<and>
         (property (js ''imageUrl'') (take 2 example_raw ! 1) = None \<longrightarrow> property (js ''imageUrl'') (out2 ! 1) = None)"
    by simp
  with r q(1,4) l2 example_uuid_inj
  have B: "\<exists>out. parseAndPrepareRecipes (\<lambda>s. Inr (JArr (take 2 example_raw))) example_uuid 5 (js ''[]'') = Inr out \<and>
     length out = 2 \<and>
     property (js ''id'') (out ! 1) = Some (JStr (js ''uuid-000000'')) \<and>
     property (js ''recipeName'') (out ! 1) = Some (JStr (js ''B'')) \<and>
     property (js ''imageUrl'') (out ! 1) = None \<and>
     distinct (map (property (js ''id'')) out)"
    by (intro exI [of _ out2]) simp
  from A B show ?thesis by blast
qed


subsection \<open>The image acquisition loop\<close>

text \<open>With an attempt budget of two, the loop is its body run once or twice.\<close>

lemma while_loop_unfold2:
  "while_loop ai (initial_vars r) =
     (let v1 = attempt ai (initial_vars r\<lparr>attempts := 1\<rparr>)
      in if isValid v1 then v1 else attempt ai (v1\<lparr>attempts := 2\<rparr>))"
proof -
  let ?v1 = "attempt ai (initial_vars r\<lparr>attempts := 1\<rparr>)"
  have att: "attempts (attempt ai v) = attempts v" for v
    by (simp add: attempt_def split: sum.splits)
  have a1: "attempts ?v1 = 1" by (simp add: att)
  have s0: "while_loop ai (initial_vars r) = while_loop ai ?v1"
    by (subst while_loop.simps) (simp add: initial_vars_def MAX_ATTEMPTS_def)
  show ?thesis
  proof (cases "isValid ?v1")
    case True
    then have "while_loop ai ?v1 = ?v1" by (subst while_loop.simps) simp
    with s0 True show ?thesis by (simp add: Let_def)
  next
    case False
    let ?v2 = "attempt ai (?v1\<lparr>attempts := 2\<rparr>)"
    have "while_loop ai ?v1 = while_loop ai ?v2"
      using False a1 by (subst while_loop.simps) (simp add: MAX_ATTEMPTS_def numeral_2_eq_2)
    moreover have "while_loop ai ?v2 = ?v2"
      by (subst while_loop.simps) (simp add: MAX_ATTEMPTS_def att)
    ultimately show ?thesis using s0 False by (simp add: Let_def)
  qed
qed

lemmas loop_defs = Let_def attempt_def initial_vars_def finalRecipeState_def MAX_ATTEMPTS_def

lemmas eval_defs = sdk_answering_def example_recipe_def generateRecipeImage_def validateRecipeImage_def
  try_catch_def answer_is_yes_def toLowerCase_def trim_def lowerChar_def isSpace_def startsWith_def js_def
  refinedPrompt_def

text \<open>
  C1. One run of the loop on a recipe. If the validator returns false on both attempts,
  exactly 2 generation attempts occur and the recipe ends with the failure flag set and no
  image. If it returns false on attempt 1 and true on attempt 2, exactly 2 attempts occur and
  the recipe ends with the image of attempt 2 and the failure flag false. If it returns
  true on attempt 1, exactly 1 attempt occurs and the recipe ends with the image of attempt
  1. Whatever the SDK does, at most 2 attempts are made. (The validator is asked only about
  an image that was generated; attempt 2 after a failed validation uses the refined prompt.)
\<close>

theorem image_loop_attempts:
  "(\<forall>g1 g2.
      generateRecipeImage ai 1 (imagePrompt r) = Inr g1 \<and>
      validateRecipeImage ai 1 (recipeName r) g1 = Inr False \<and>
      generateRecipeImage ai 2 (refinedPrompt r) = Inr g2 \<and>
      validateRecipeImage ai 2 (recipeName r) g2 = Inr False \<longrightarrow>
      attempts (while_loop ai (initial_vars r)) = 2 \<and>
      imageUrl (finalRecipeState (while_loop ai (initial_vars r))) = None \<and>
      imageError (finalRecipeState (while_loop ai (initial_vars r))) = Some True) \<and>
   (\<forall>g1 g2.
      generateRecipeImage ai 1 (imagePrompt r) = Inr g1 \<and>
      validateRecipeImage ai 1 (recipeName r) g1 = Inr False \<and>
      generateRecipeImage ai 2 (refinedPrompt r) = Inr g2 \<and>
      validateRecipeImage ai 2 (recipeName r) g2 = Inr True \<longrightarrow>
      attempts (while_loop ai (initial_vars r)) = 2 \<and>
      imageUrl (finalRecipeState (while_loop ai (initial_vars r))) = Some g2 \<and>
      imageError (finalRecipeState (while_loop ai (initial_vars r))) = Some False) \<and>
   (\<forall>g1.
      generateRecipeImage ai 1 (imagePrompt r) = Inr g1 \<and>
      validateRecipeImage ai 1 (recipeName r) g1 = Inr True \<longrightarrow>
      attempts (while_loop ai (initial_vars r)) = 1 \<and>
      imageUrl (finalRecipeState (while_loop ai (initial_vars r))) = Some g1 \<and>
      imageError (finalRecipeState (while_loop ai (initial_vars r))) = Some False) \<and>
   attempts (while_loop ai (initial_vars r)) \<le> 2"
  unfolding while_loop_unfold2
  by (auto simp: loop_defs split: sum.splits)

theorem image_loop_attempts_witness:
  "attempts (while_loop (sdk_answering (\<lambda>k. Inr (Some [js ''QUJD''])) (\<lambda>k. js ''no'')) (initial_vars example_recipe)) = 2 \<and>
   imageUrl (finalRecipeState (while_loop (sdk_answering (\<lambda>k. Inr (Some [js ''QUJD''])) (\<lambda>k. js ''no''))
     (initial_vars example_recipe))) = None \<and>
   imageError (finalRecipeState (while_loop (sdk_answering (\<lambda>k. Inr (Some [js ''QUJD''])) (\<lambda>k. js ''no''))
     (initial_vars example_recipe))) = Some True \<and>
   attempts (while_loop (sdk_answering (\<lambda>k. Inr (Some [js ''QUJD''])) (\<lambda>k. if k = 1 then js ''No.'' else js ''Yes''))
     (initial_vars example_recipe)) = 2 \<and>
   imageUrl (finalRecipeState (while_loop (sdk_answering (\<lambda>k. Inr (Some [js ''QUJD''])) (\<lambda>k. if k = 1 then js ''No.'' else js ''Yes''))
     (initial_vars example_recipe))) = Some (js ''data:image/jpeg;base64,QUJD'') \<and>
   imageError (finalRecipeState (while_loop (sdk_answering (\<lambda>k. Inr (Some [js ''QUJD''])) (\<lambda>k. if k = 1 then js ''No.'' else js ''Yes''))
     (initial_vars example_recipe))) = Some False \<and>
   attempts (while_loop (sdk_answering (\<lambda>k. Inr (Some [js ''QUJD''])) (\<lambda>k. js '' yes'')) (initial_vars example_recipe)) = 1 \<and>
   imageUrl (finalRecipeState (while_loop (sdk_answering (\<lambda>k. Inr (Some [js ''QUJD''])) (\<lambda>k. js '' yes''))
     (initial_vars example_recipe))) = Some (js ''data:image/jpeg;base64,QUJD'')"
  using image_loop_attempts [of "sdk_answering (\<lambda>k. Inr (Some [js ''QUJD''])) (\<lambda>k. js ''no'')" example_recipe]
    image_loop_attempts [of "sdk_answering (\<lambda>k. Inr (Some [js ''QUJD''])) (\<lambda>k. if k = 1 then js ''No.'' else js ''Yes'')" example_recipe]
    image_loop_attempts [of "sdk_answering (\<lambda>k. Inr (Some [js ''QUJD''])) (\<lambda>k. js '' yes'')" example_recipe]
  by (simp add: eval_defs)




lemma final_invariant: "image_invariant (finalRecipeState v)"
  by (simp add: image_invariant_def finalRecipeState_def)

text \<open>
  C5. A recipe never has both its image field and its failure flag set. It holds of a recipe
  when the handlers create it (\<open>withId\<close>, the spread at each of the three places that
  create recipes, leaves the image unset); the recipe the loop settles on satisfies it
  whatever the SDK did; and the settle update keeps it true of every recipe in the displayed
  collections.
\<close>

theorem image_and_failure_flag_exclusive:
  "image_invariant (withId raw uuid) \<and>
   image_invariant (finalRecipeState (while_loop ai (initial_vars recipe))) \<and>
   ((\<forall>r \<in> set (displayed s). image_invariant r) \<longrightarrow>
    (\<forall>r \<in> set (displayed (generateAndSetImageForRecipe ai recipe s)). image_invariant r))"
proof -
  have "image_invariant (withId raw uuid)"
    by (simp add: image_invariant_def withId_def)
  then show ?thesis
    by (cases "recipes s")
       (auto simp: displayed_def generateAndSetImageForRecipe_def Let_def final_invariant)
qed

theorem image_and_failure_flag_exclusive_witness:
  "list_all image_invariant (displayed example_state) \<and>
   list_all image_invariant (displayed (generateAndSetImageForRecipe
       (sdk_answering (\<lambda>k. Inr (Some [js ''QUJD''])) (\<lambda>k. js ''yes'')) example_recipe example_state))"
  using image_and_failure_flag_exclusive [where ai = "sdk_answering (\<lambda>k. Inr (Some [js ''QUJD''])) (\<lambda>k. js ''yes'')"
      and recipe = example_recipe and s = example_state]
  by (simp add: list_all_iff displayed_def example_state_def example_recipe_def image_invariant_def)

text \<open>
  C6, as stated, fails on the image prompt: when attempt 1 fails validation the loop rewrites
  the prompt of its copy of the recipe, and the settle update stores that copy.
\<close>

theorem settle_frame_counterexample:
  "recipes (generateAndSetImageForRecipe (sdk_answering (\<lambda>k. Inr (Some [js ''QUJD''])) (\<lambda>k. js ''no''))
      example_recipe example_state)
     = Some [example_recipe\<lparr>imagePrompt := refinedPrompt example_recipe, imageError := Some True\<rparr>] \<and>
   refinedPrompt example_recipe \<noteq> imagePrompt example_recipe"
  unfolding generateAndSetImageForRecipe_def while_loop_unfold2
  by (simp add: loop_defs eval_defs example_state_def)

lemma attempt_recipe:
  "currentRecipe (attempt ai v) = currentRecipe v \<or>
   currentRecipe (attempt ai v) = (currentRecipe v)\<lparr>imagePrompt := refinedPrompt (currentRecipe v)\<rparr>"
  by (simp add: attempt_def split: sum.splits)

lemma attempt_recipe_last:
  "attempts v = 2 \<Longrightarrow> currentRecipe (attempt ai v) = currentRecipe v"
  by (simp add: attempt_def MAX_ATTEMPTS_def split: sum.splits)

lemma loop_keeps_recipe:
  "currentRecipe (while_loop ai (initial_vars r)) = r \<or>
   currentRecipe (while_loop ai (initial_vars r)) = r\<lparr>imagePrompt := refinedPrompt r\<rparr>"
proof -
  let ?v0 = "initial_vars r\<lparr>attempts := 1\<rparr>"
  have c0: "currentRecipe ?v0 = r" by (simp add: initial_vars_def)
  have "currentRecipe (attempt ai ?v0) = r \<or>
        currentRecipe (attempt ai ?v0) = r\<lparr>imagePrompt := refinedPrompt r\<rparr>"
    using attempt_recipe [of ai ?v0] c0 by simp
  moreover have "currentRecipe (attempt ai (attempt ai ?v0\<lparr>attempts := 2\<rparr>)) = currentRecipe (attempt ai ?v0)"
    by (simp add: attempt_recipe_last)
  ultimately show ?thesis
    unfolding while_loop_unfold2 Let_def by (cases "isValid (attempt ai ?v0)") simp_all
qed

lemma final_fields:
  "id' (finalRecipeState (while_loop ai (initial_vars r))) = id' r \<and>
   recipeName (finalRecipeState (while_loop ai (initial_vars r))) = recipeName r \<and>
   description (finalRecipeState (while_loop ai (initial_vars r))) = description r \<and>
   ingredients (finalRecipeState (while_loop ai (initial_vars r))) = ingredients r \<and>
   instructions (finalRecipeState (while_loop ai (initial_vars r))) = instructions r \<and>
   (imagePrompt (finalRecipeState (while_loop ai (initial_vars r))) = imagePrompt r \<or>
    imagePrompt (finalRecipeState (while_loop ai (initial_vars r))) = refinedPrompt r)"
  using loop_keeps_recipe [of ai r] by (auto simp: finalRecipeState_def)

lemma final_prompt:
  "imagePrompt (finalRecipeState (while_loop ai (initial_vars r))) =
     (if first_validation_failed ai r then refinedPrompt r else imagePrompt r)"
  unfolding while_loop_unfold2
  by (auto simp: loop_defs first_validation_failed_def split: sum.splits)

lemma settled_list_map:
  assumes "id' f = id' recipe"
  shows "settled_list recipe f rs (map (\<lambda>r. if id' r = id' f then f else r) rs)"
  using assms by (simp add: settled_list_def)

text \<open>
  C6, amended. When the loop for \<open>recipe\<close> settles, both displayed collections keep their
  length, every entry with another identifier is unchanged, and the entries with the
  identifier of \<open>recipe\<close> become the recipe the loop settled on. That recipe has the
  identifier, name, description, ingredients and instructions of \<open>recipe\<close>; besides the
  image field and the failure flag its image prompt may differ: it is the refined prompt
  when attempt 1 produced an image that failed validation, and the prompt of \<open>recipe\<close>
  in every other case. The saved recipes are not touched.
\<close>

theorem settle_frame:
  "same_text (finalRecipeState (while_loop ai (initial_vars recipe))) recipe \<and>
   imagePrompt (finalRecipeState (while_loop ai (initial_vars recipe))) =
     (if first_validation_failed ai recipe then refinedPrompt recipe else imagePrompt recipe) \<and>
   settled_list recipe (finalRecipeState (while_loop ai (initial_vars recipe)))
     (popularRecipes s) (popularRecipes (generateAndSetImageForRecipe ai recipe s)) \<and>
   (case recipes s of
      None \<Rightarrow> recipes (generateAndSetImageForRecipe ai recipe s) = None
    | Some rs \<Rightarrow> (\<exists>rs'. recipes (generateAndSetImageForRecipe ai recipe s) = Some rs' \<and>
        settled_list recipe (finalRecipeState (while_loop ai (initial_vars recipe))) rs rs')) \<and>
   savedRecipes (generateAndSetImageForRecipe ai recipe s) = savedRecipes s"
proof -
  let ?f = "finalRecipeState (while_loop ai (initial_vars recipe))"
  have st: "same_text ?f recipe"
    using final_fields [of ai recipe] by (simp add: same_text_def)
  then have i: "id' ?f = id' recipe" by (simp add: same_text_def)
  note m = settled_list_map [OF i]
  show ?thesis
    using st final_prompt [of ai recipe]
    by (cases "recipes s") (simp_all add: generateAndSetImageForRecipe_def Let_def m)
qed

theorem settle_frame_witness:
  "first_validation_failed (sdk_answering (\<lambda>k. Inr (Some [js ''QUJD''])) (\<lambda>k. js ''no'')) example_recipe \<and>
   popularRecipes (generateAndSetImageForRecipe (sdk_answering (\<lambda>k. Inr (Some [js ''QUJD''])) (\<lambda>k. js ''no''))
        example_recipe (example_state\<lparr>popularRecipes := [example_recipe, example_recipe\<lparr>id' := js ''r2''\<rparr>]\<rparr>)) ! 0
     = example_recipe\<lparr>imagePrompt := refinedPrompt example_recipe, imageError := Some True\<rparr> \<and>
   popularRecipes (generateAndSetImageForRecipe (sdk_answering (\<lambda>k. Inr (Some [js ''QUJD''])) (\<lambda>k. js ''no''))
        example_recipe (example_state\<lparr>popularRecipes := [example_recipe, example_recipe\<lparr>id' := js ''r2''\<rparr>]\<rparr>)) ! 1
     = example_recipe\<lparr>id' := js ''r2''\<rparr> \<and>
   \<not> first_validation_failed (sdk_answering (\<lambda>k. Inr (Some [js ''QUJD''])) (\<lambda>k. js ''yes'')) example_recipe \<and>
   imagePrompt (popularRecipes (generateAndSetImageForRecipe (sdk_answering (\<lambda>k. Inr (Some [js ''QUJD''])) (\<lambda>k. js ''yes''))
        example_recipe (example_state\<lparr>popularRecipes := [example_recipe, example_recipe\<lparr>id' := js ''r2''\<rparr>]\<rparr>)) ! 0)
     = imagePrompt example_recipe"
proof -
  let ?no = "sdk_answering (\<lambda>k. Inr (Some [js ''QUJD''])) (\<lambda>k. js ''no'')"
  let ?yes = "sdk_answering (\<lambda>k. Inr (Some [js ''QUJD''])) (\<lambda>k. js ''yes'')"
  let ?r2 = "example_recipe\<lparr>id' := js ''r2''\<rparr>"
  let ?s = "example_state\<lparr>popularRecipes := [example_recipe, ?r2]\<rparr>"
  have a: "first_validation_failed ?no example_recipe"
    by (simp add: first_validation_failed_def eval_defs)
  have b: "\<not> first_validation_failed ?yes example_recipe"
    by (simp add: first_validation_failed_def eval_defs)
  have c: "id' ?r2 \<noteq> id' example_recipe" by (simp add: example_recipe_def js_def)
  have p: "popularRecipes ?s = [example_recipe, ?r2]" by simp
  have f: "finalRecipeState (while_loop ?no (initial_vars example_recipe))
     = example_recipe\<lparr>imagePrompt := refinedPrompt example_recipe, imageError := Some True\<rparr>"
    unfolding while_loop_unfold2 by (simp add: loop_defs eval_defs)
  from settle_frame [of ?no example_recipe ?s]
  have n: "settled_list example_recipe (finalRecipeState (while_loop ?no (initial_vars example_recipe)))
      [example_recipe, ?r2] (popularRecipes (generateAndSetImageForRecipe ?no example_recipe ?s))"
    unfolding p by blast
  from settle_frame [of ?yes example_recipe ?s]
  have y: "settled_list example_recipe (finalRecipeState (while_loop ?yes (initial_vars example_recipe)))
      [example_recipe, ?r2] (popularRecipes (generateAndSetImageForRecipe ?yes example_recipe ?s))"
    and yp: "imagePrompt (finalRecipeState (while_loop ?yes (initial_vars example_recipe))) = imagePrompt example_recipe"
    unfolding p using b by simp_all
  from n have n0: "popularRecipes (generateAndSetImageForRecipe ?no example_recipe ?s) ! 0
      = finalRecipeState (while_loop ?no (initial_vars example_recipe))"
    unfolding settled_list_def by simp
  from n c have n1: "popularRecipes (generateAndSetImageForRecipe ?no example_recipe ?s) ! 1 = ?r2"
    unfolding settled_list_def by (metis One_nat_def length_Cons lessI list.size(3) nth_Cons_0 nth_Cons_Suc)
  from y have y0: "popularRecipes (generateAndSetImageForRecipe ?yes example_recipe ?s) ! 0
      = finalRecipeState (while_loop ?yes (initial_vars example_recipe))"
    unfolding settled_list_def by simp
  show ?thesis
    unfolding n0 n1 y0 f yp using a b by simp
qed


subsection \<open>The classifiers of the gateway\<close>

lemma try_catch_false: "\<exists>b. try_catch body (\<lambda>error. Inr False) = Inr b"
  by (cases body) (auto simp: try_catch_def)

lemma try_catch_no_answer:
  "(\<exists>e. response = Inl e) \<or> response = Inr None \<Longrightarrow>
   try_catch (case response of Inl e \<Rightarrow> Inl e | Inr text \<Rightarrow> answer_is_yes text) (\<lambda>error. Inr False) = Inr False"
  by (auto simp: try_catch_def answer_is_yes_def)

text \<open>
  C7. \<open>isFoodImage\<close> and \<open>validateRecipeImage\<close> always return a boolean, whatever the
  SDK does, and never an error; when the model call throws, or its response carries no
  text, they return false.
\<close>

theorem classifiers_fail_safe:
  "(\<exists>b. isFoodImage ai k d m = Inr b) \<and>
   (\<exists>b. validateRecipeImage ai k n img = Inr b) \<and>
   ((\<forall>parts. (\<exists>e. generateContent ai k parts = Inl e) \<or> generateContent ai k parts = Inr None) \<longrightarrow>
      isFoodImage ai k d m = Inr False \<and> validateRecipeImage ai k n img = Inr False)"
proof -
  have 1: "\<exists>b. isFoodImage ai k d m = Inr b"
    unfolding isFoodImage_def Let_def by (rule try_catch_false)
  have 2: "\<exists>b. validateRecipeImage ai k n img = Inr b"
    unfolding validateRecipeImage_def Let_def by (rule try_catch_false)
  have 3: "isFoodImage ai k d m = Inr False \<and> validateRecipeImage ai k n img = Inr False"
    if h: "\<forall>parts. (\<exists>e. generateContent ai k parts = Inl e) \<or> generateContent ai k parts = Inr None"
    unfolding isFoodImage_def validateRecipeImage_def Let_def
    using h by (simp add: try_catch_no_answer)
  from 1 2 3 show ?thesis by blast
qed

theorem classifiers_fail_safe_witness:
  "isFoodImage sdk_failing 0 (js ''QUJD'') (js ''image/png'') = Inr False \<and>
   validateRecipeImage sdk_failing 1 (js ''Soup'') (js ''data:image/jpeg;base64,QUJD'') = Inr False"
  using classifiers_fail_safe [of sdk_failing 0 "js ''QUJD''" "js ''image/png''" "js ''Soup''" "js ''data:image/jpeg;base64,QUJD''"]
    classifiers_fail_safe [of sdk_failing 1 "js ''QUJD''" "js ''image/png''" "js ''Soup''" "js ''data:image/jpeg;base64,QUJD''"]
  by (simp add: sdk_failing_def)

subsection \<open>Saving and unsaving\<close>

text \<open>
  C8, as stated, fails: toggling twice a recipe whose identifier is already saved removes
  the saved entry and appends the toggled recipe, so the saved entry is replaced by the
  recipe as it is now (here: with its image resolved), and it moves to the end of the list.
\<close>

theorem save_toggle_twice_counterexample:
  "distinct (map id' [example_recipe]) \<and>
   handleSaveToggle (example_recipe\<lparr>imageUrl := Some (js ''data:image/jpeg;base64,QUJD''), imageError := Some False\<rparr>)
     (handleSaveToggle (example_recipe\<lparr>imageUrl := Some (js ''data:image/jpeg;base64,QUJD''), imageError := Some False\<rparr>)
        [example_recipe])
     \<noteq> [example_recipe] \<and>
   distinct (map id' [example_recipe, example_recipe\<lparr>id' := js ''r2''\<rparr>]) \<and>
   handleSaveToggle example_recipe (handleSaveToggle example_recipe [example_recipe, example_recipe\<lparr>id' := js ''r2''\<rparr>])
     = [example_recipe\<lparr>id' := js ''r2''\<rparr>, example_recipe]"
  by (simp add: handleSaveToggle_def example_recipe_def js_def)

lemma toggle_distinct:
  "distinct (map id' prev) \<Longrightarrow> distinct (map id' (handleSaveToggle r prev))"
  by (auto simp: handleSaveToggle_def list_ex_iff distinct_map_filter)

lemma toggles_distinct:
  "distinct (map id' saved) \<Longrightarrow> distinct (map id' (toggles saved rs))"
  unfolding toggles_def
  by (induction rs arbitrary: saved) (simp_all add: toggle_distinct)

lemma toggle_twice_absent:
  "\<not> list_ex (\<lambda>x. id' x = id' r) saved \<Longrightarrow> handleSaveToggle r (handleSaveToggle r saved) = saved"
  by (auto simp: handleSaveToggle_def list_ex_iff filter_id_conv)

lemma toggle_twice_present:
  "list_ex (\<lambda>x. id' x = id' r) saved \<Longrightarrow>
   handleSaveToggle r (handleSaveToggle r saved) = filter (\<lambda>x. id' x \<noteq> id' r) saved @ [r]"
  by (auto simp: handleSaveToggle_def list_ex_iff)

lemma toggle_twice_ids:
  "id' ` set (handleSaveToggle r (handleSaveToggle r saved)) = id' ` set saved"
proof (cases "list_ex (\<lambda>x. id' x = id' r) saved")
  case True
  then obtain x where x: "x \<in> set saved" "id' x = id' r"
    by (auto simp: list_ex_iff)
  have "id' ` set (filter (\<lambda>x. id' x \<noteq> id' r) saved @ [r]) = id' ` set saved"
    using x by (auto simp: image_iff) metis
  with True show ?thesis by (simp add: toggle_twice_present)
next
  case False
  then show ?thesis by (simp add: toggle_twice_absent)
qed

text \<open>
  C8, amended. Starting from saved recipes without duplicate identifiers: no sequence of
  toggles creates a duplicate identifier; toggling \<open>r\<close> twice leaves the set of saved
  identifiers as it was; the saved list itself is restored when the identifier of \<open>r\<close>
  was not saved, and otherwise the entry with that identifier is removed and \<open>r\<close> is
  appended at the end.
\<close>

theorem save_toggle_twice:
  "distinct (map id' saved) \<longrightarrow>
     distinct (map id' (toggles saved rs)) \<and>
     id' ` set (handleSaveToggle r (handleSaveToggle r saved)) = id' ` set saved \<and>
     (\<not> list_ex (\<lambda>x. id' x = id' r) saved \<longrightarrow>
        handleSaveToggle r (handleSaveToggle r saved) = saved) \<and>
     (list_ex (\<lambda>x. id' x = id' r) saved \<longrightarrow>
        handleSaveToggle r (handleSaveToggle r saved) = filter (\<lambda>x. id' x \<noteq> id' r) saved @ [r])"
  using toggles_distinct toggle_twice_ids toggle_twice_absent toggle_twice_present by blast

theorem save_toggle_twice_witness:
  "distinct (map id' [example_recipe]) \<and>
   distinct (map id' (toggles [example_recipe] [example_recipe\<lparr>id' := js ''r2''\<rparr>, example_recipe])) \<and>
   handleSaveToggle (example_recipe\<lparr>id' := js ''r2''\<rparr>) (handleSaveToggle (example_recipe\<lparr>id' := js ''r2''\<rparr>) [example_recipe])
     = [example_recipe] \<and>
   handleSaveToggle example_recipe (handleSaveToggle example_recipe [example_recipe]) = [] @ [example_recipe]"
  using save_toggle_twice [of "[example_recipe]" "[example_recipe\<lparr>id' := js ''r2''\<rparr>, example_recipe]" "example_recipe\<lparr>id' := js ''r2''\<rparr>"]
    save_toggle_twice [of "[example_recipe]" "[]" example_recipe]
  by (simp add: example_recipe_def js_def)

subsection \<open>Load more\<close>

text \<open>
  C10. When \<open>handleLoadMoreRecipes\<close> runs with no image and the error message does not
  contain the not-food text, it returns after setting the loading flag and clearing the
  recipes and the error: the loading flag is left true, no recipes are displayed, no error
  is reported, no fetch is made and no image loop is started.
\<close>

theorem load_more_without_image:
  "(image' s = None \<or> image' s = Some []) \<and>
   (case error s of None \<Rightarrow> True | Some e \<Rightarrow> \<not> includes' e (js ''This doesn't appear to be food'')) \<longrightarrow>
   handleLoadMoreRecipes gw n0 s =
     \<lparr>state = s\<lparr>isLoading := True, error := None, recipes := None\<rparr>, fetches = [], started = []\<rparr>"
  by (auto simp: handleLoadMoreRecipes_def Let_def split: option.splits)

theorem load_more_without_image_witness:
  "image' example_state = None \<and> error example_state = None \<and>
   isLoading (state (handleLoadMoreRecipes example_gateway 0 example_state)) \<and>
   recipes (state (handleLoadMoreRecipes example_gateway 0 example_state)) = None \<and>
   error (state (handleLoadMoreRecipes example_gateway 0 example_state)) = None \<and>
   fetches (handleLoadMoreRecipes example_gateway 0 example_state) = []"
  using load_more_without_image [of example_state example_gateway 0]
  by (simp add: example_state_def)



subsection \<open>The instruction time parser\<close>

lemmas parse_defs = parseInstructionForTime_def timeRegex_at_def range_prefix_def number_unit_def unit_word_def
  lit_def many1_def isDigit_def isSpace_def upperChar_def lowerChar_def toLowerCase_def startsWith_def
  parseInt10_def digitsValue_def as_number_def times'_def js_def

text \<open>The matcher's results as a set.\<close>

lemma many_mem: "(m, r) \<in> set (many P s) \<longleftrightarrow> s = m @ r \<and> list_all P m"
proof (induction s arbitrary: m r)
  case Nil
  then show ?case by auto
next
  case (Cons c cs)
  show ?case
  proof (cases m)
    case Nil
    then show ?thesis by auto
  next
    case (Cons a m')
    then show ?thesis using Cons.IH [of m' r] by auto
  qed
qed

lemma many1_mem: "(m, r) \<in> set (many1 P s) \<longleftrightarrow> s = m @ r \<and> m \<noteq> [] \<and> list_all P m"
  by (auto simp: many1_def many_mem)

lemma same_word_length: "same_word u w \<Longrightarrow> length u = length w"
  unfolding same_word_def by (metis length_map)

lemma lit_mem: "(m, r) \<in> set (lit w s) \<longleftrightarrow> s = m @ r \<and> same_word m w"
proof
  assume "(m, r) \<in> set (lit w s)"
  then have c: "map upperChar (take (length w) s) = map upperChar w"
    and m: "m = take (length w) s" and r: "r = drop (length w) s"
    by (auto simp: lit_def split: if_splits)
  show "s = m @ r \<and> same_word m w"
    using c m r by (simp add: same_word_def)
next
  assume a: "s = m @ r \<and> same_word m w"
  then have "length m = length w" by (simp add: same_word_length)
  with a show "(m, r) \<in> set (lit w s)"
    by (simp add: lit_def same_word_def)
qed

lemma unit_word_mem:
  "(u, r) \<in> set (unit_word s) \<longleftrightarrow> s = u @ r \<and> (\<exists>k. unit_seconds u k)"
  by (auto simp: unit_word_def lit_mem unit_seconds_def)

lemma bind_mem:
  "x \<in> set (xs \<bind> (\<lambda>(a, b). f a b)) \<longleftrightarrow> (\<exists>a b. (a, b) \<in> set xs \<and> x \<in> set (f a b))"
  by (auto simp: List.bind_def)

lemma number_unit_mem:
  "(g2, g3) \<in> set (number_unit s) \<longleftrightarrow>
     (\<exists>w r. s = g2 @ w @ g3 @ r \<and> is_number g2 \<and> blank w \<and> (\<exists>k. unit_seconds g3 k))"
  unfolding number_unit_def
  by (simp add: bind_mem many1_mem many_mem unit_word_mem is_number_def blank_def) blast

lemma range_prefix_mem:
  "(g1, r) \<in> set (range_prefix s) \<longleftrightarrow>
     (\<exists>w1 to w2. s = g1 @ w1 @ to @ w2 @ r \<and> is_number g1 \<and> blank w1 \<and>
        same_word to (js ''to'') \<and> blank w2)"
  unfolding range_prefix_def
  by (simp add: bind_mem many1_mem many_mem lit_mem is_number_def blank_def) blast

lemma timeRegex_at_mem:
  "(g1, g2, g3) \<in> set (timeRegex_at s) \<longleftrightarrow>
     (g1 = None \<and> (g2, g3) \<in> set (number_unit s)) \<or>
     (\<exists>n r. g1 = Some n \<and> (n, r) \<in> set (range_prefix s) \<and> (g2, g3) \<in> set (number_unit r))"
  unfolding timeRegex_at_def
  by (simp add: bind_mem) blast

text \<open>Matcher results are occurrences of the pattern.\<close>

lemma phrase_atI:
  "is_number d \<Longrightarrow> blank w \<Longrightarrow> unit_seconds u k \<Longrightarrow> phrase_at (d @ w @ u @ rest) d k"
  unfolding phrase_at_def by blast

lemma duration_phraseI:
  "is_number d \<Longrightarrow> blank w \<Longrightarrow> unit_seconds u k \<Longrightarrow> duration_phrase (d @ w @ u) d k"
  unfolding duration_phrase_def by blast

lemma pattern_at_iff:
  "pattern_at s d k \<longleftrightarrow>
     phrase_at s d k \<or>
     (\<exists>n w1 to w2 s'. s = n @ w1 @ to @ w2 @ s' \<and> is_number n \<and> blank w1 \<and>
        same_word to (js ''to'') \<and> blank w2 \<and> phrase_at s' d k)"
proof
  assume "pattern_at s d k"
  then obtain t rest where s: "s = t @ rest" and p: "pattern_text t d k"
    by (auto simp: pattern_at_def)
  from p show "phrase_at s d k \<or>
     (\<exists>n w1 to w2 s'. s = n @ w1 @ to @ w2 @ s' \<and> is_number n \<and> blank w1 \<and>
        same_word to (js ''to'') \<and> blank w2 \<and> phrase_at s' d k)"
    unfolding pattern_text_def
  proof
    assume "duration_phrase t d k"
    then obtain w u where "t = d @ w @ u" "is_number d" "blank w" "unit_seconds u k"
      unfolding duration_phrase_def by blast
    then have "phrase_at s d k" using s phrase_atI [of d w u k rest] by simp
    then show ?thesis ..
  next
    assume "\<exists>n w1 to w2 t'. t = n @ w1 @ to @ w2 @ t' \<and> is_number n \<and> blank w1 \<and>
         same_word to (js ''to'') \<and> blank w2 \<and> duration_phrase t' d k"
    then obtain n w1 to w2 t' where t: "t = n @ w1 @ to @ w2 @ t'" and
      h: "is_number n" "blank w1" "same_word to (js ''to'')" "blank w2" and dp: "duration_phrase t' d k"
      by blast
    from dp obtain w u where "t' = d @ w @ u" "is_number d" "blank w" "unit_seconds u k"
      unfolding duration_phrase_def by blast
    then have "phrase_at (t' @ rest) d k"
      using phrase_atI [of d w u k rest] by simp
    moreover have "s = n @ w1 @ to @ w2 @ (t' @ rest)" using s t by simp
    ultimately show ?thesis using h by blast
  qed
next
  assume "phrase_at s d k \<or>
     (\<exists>n w1 to w2 s'. s = n @ w1 @ to @ w2 @ s' \<and> is_number n \<and> blank w1 \<and>
        same_word to (js ''to'') \<and> blank w2 \<and> phrase_at s' d k)"
  then show "pattern_at s d k"
  proof
    assume "phrase_at s d k"
    then obtain w u rest where "s = d @ w @ u @ rest" "is_number d" "blank w" "unit_seconds u k"
      unfolding phrase_at_def by blast
    then have "s = (d @ w @ u) @ rest" "pattern_text (d @ w @ u) d k"
      using duration_phraseI [of d w u k] by (simp_all add: pattern_text_def)
    then show ?thesis unfolding pattern_at_def by blast
  next
    assume "\<exists>n w1 to w2 s'. s = n @ w1 @ to @ w2 @ s' \<and> is_number n \<and> blank w1 \<and>
        same_word to (js ''to'') \<and> blank w2 \<and> phrase_at s' d k"
    then obtain n w1 to w2 s' where s: "s = n @ w1 @ to @ w2 @ s'" and
      h: "is_number n" "blank w1" "same_word to (js ''to'')" "blank w2" and pa: "phrase_at s' d k"
      by blast
    from pa obtain w u rest where "s' = d @ w @ u @ rest" "is_number d" "blank w" "unit_seconds u k"
      unfolding phrase_at_def by blast
    then have s': "s' = (d @ w @ u) @ rest" and dp: "duration_phrase (d @ w @ u) d k"
      using duration_phraseI [of d w u k] by simp_all
    have "s = (n @ w1 @ to @ w2 @ (d @ w @ u)) @ rest" using s s' by simp
    moreover have "pattern_text (n @ w1 @ to @ w2 @ (d @ w @ u)) d k"
      unfolding pattern_text_def using h dp by blast
    ultimately show ?thesis unfolding pattern_at_def by blast
  qed
qed

lemma lowerChar_upperChar: "lowerChar (upperChar c) = lowerChar c"
  by (auto simp: upperChar_def lowerChar_def)

lemma same_word_lower:
  assumes "same_word u w"
  shows "toLowerCase u = toLowerCase w"
proof -
  have l: "map lowerChar (map upperChar v) = toLowerCase v" for v
    by (simp add: toLowerCase_def lowerChar_upperChar)
  from assms have "map lowerChar (map upperChar u) = map lowerChar (map upperChar w)"
    by (simp only: same_word_def)
  then show ?thesis by (simp only: l)
qed

lemma unit_seconds_k_of: "unit_seconds u k \<Longrightarrow> k_of u = k"
  unfolding unit_seconds_def k_of_def
  by (auto dest!: same_word_lower simp: toLowerCase_def lowerChar_def startsWith_def js_def)

lemma number_unit_phrase:
  "(g2, g3) \<in> set (number_unit s) \<longleftrightarrow> phrase_at s g2 (k_of g3) \<and> (\<exists>w r. s = g2 @ w @ g3 @ r \<and> blank w \<and> (\<exists>k. unit_seconds g3 k))"
  unfolding number_unit_mem phrase_at_def
  using unit_seconds_k_of by blast

lemma regex_sound:
  assumes "(g1, g2, g3) \<in> set (timeRegex_at s)"
  shows "pattern_at s g2 (k_of g3)"
  using assms unfolding timeRegex_at_mem pattern_at_iff range_prefix_mem number_unit_phrase
  by blast

lemma phrase_at_number_unit:
  assumes "phrase_at s d k"
  shows "\<exists>g3. (d, g3) \<in> set (number_unit s)"
  using assms unfolding phrase_at_def number_unit_mem by blast

lemma regex_complete:
  assumes "pattern_at s d k"
  shows "timeRegex_at s \<noteq> []"
proof -
  from assms have "\<exists>g1 g3. (g1, d, g3) \<in> set (timeRegex_at s)"
    unfolding pattern_at_iff timeRegex_at_mem range_prefix_mem
    using phrase_at_number_unit by (metis (no_types, lifting))
  then show ?thesis by auto
qed

text \<open>An occurrence at a position determines its number and unit.\<close>

lemma while_stop:
  assumes "list_all P xs" "ys = [] \<or> \<not> P (hd ys)"
  shows "takeWhile P (xs @ ys) = xs" "dropWhile P (xs @ ys) = ys"
proof -
  have t: "takeWhile P ys = []" and d: "dropWhile P ys = ys"
    using assms(2) by (cases ys; simp)+
  from assms(1) have a: "\<forall>x \<in> set xs. P x" by (simp add: list_all_iff)
  show "takeWhile P (xs @ ys) = xs" using a t by (simp add: takeWhile_append2)
  show "dropWhile P (xs @ ys) = ys" using a d by (simp add: dropWhile_append2)
qed

lemma letter_not_digit_space:
  "upperChar c = 77 \<or> upperChar c = 72 \<or> upperChar c = 84 \<Longrightarrow> \<not> isDigit c \<and> \<not> isSpace c"
  by (auto simp: upperChar_def isDigit_def isSpace_def split: if_splits)

lemma digit_not_space: "isDigit c \<Longrightarrow> \<not> isSpace c"
  by (auto simp: isDigit_def isSpace_def)

lemma unit_first:
  assumes "unit_seconds u k"
  shows "\<exists>c u'. u = c # u' \<and> upperChar c = (if k = 60 then 77 else 72) \<and> (k = 60 \<or> k = 3600)"
proof -
  have c: "upperChar 109 = 77" "upperChar 104 = 72" by (simp_all add: upperChar_def)
  show ?thesis
    using assms unfolding unit_seconds_def same_word_def
    by (cases u) (auto simp: js_def c)
qed

lemma to_first:
  assumes "same_word to (js ''to'')"
  shows "\<exists>a b. to = [a, b] \<and> upperChar a = 84"
proof -
  from assms have m: "map upperChar to = [84, 79]"
    by (simp add: same_word_def js_def upperChar_def)
  then obtain a r where to: "to = a # r" by (cases to) auto
  with m obtain b r' where r: "r = b # r'" by (cases r) auto
  with m to have "r' = []" by simp
  with m to r show ?thesis by simp
qed

lemma blank_then:
  assumes "blank w" "\<not> isDigit c"
  shows "w @ c # r = [] \<or> \<not> isDigit (hd (w @ c # r))"
proof (cases w)
  case Nil
  then show ?thesis using assms by simp
next
  case (Cons a w')
  then have "isSpace a" using assms(1) by (simp add: blank_def)
  then have "\<not> isDigit a" using digit_not_space by blast
  then show ?thesis using Cons by simp
qed

lemma number_blank_letter:
  assumes "is_number d" "blank w" "\<not> isDigit c" "\<not> isSpace c"
  shows "takeWhile isDigit (d @ w @ c # r) = d" "rest_after (d @ w @ c # r) = c # r"
proof -
  have dd: "list_all isDigit d" using assms(1) by (simp add: is_number_def)
  have ww: "list_all isSpace w" using assms(2) by (simp add: blank_def)
  note b = blank_then [OF assms(2,3), of r]
  show "takeWhile isDigit (d @ w @ c # r) = d"
    using while_stop(1) [OF dd b] by simp
  have "dropWhile isDigit (d @ w @ c # r) = w @ c # r"
    using while_stop(2) [OF dd b] by simp
  moreover have "dropWhile isSpace (w @ c # r) = c # r"
    using while_stop(2) [OF ww, of "c # r"] assms(4) by simp
  ultimately show "rest_after (d @ w @ c # r) = c # r"
    by (simp add: rest_after_def)
qed

lemma phrase_canon:
  assumes "phrase_at s d k"
  shows "takeWhile isDigit s = d" "first_upper (rest_after s) = Some (if k = 60 then 77 else 72)"
    "k = 60 \<or> k = 3600"
proof -
  from assms obtain w u rest where s: "s = d @ w @ u @ rest" and
    h: "is_number d" "blank w" "unit_seconds u k"
    unfolding phrase_at_def by blast
  from unit_first [OF h(3)] obtain c u' where u: "u = c # u'" and
    c: "upperChar c = (if k = 60 then 77 else 72)" and k: "k = 60 \<or> k = 3600" by blast
  have nc: "\<not> isDigit c" "\<not> isSpace c"
    using letter_not_digit_space [of c] c by (simp_all split: if_splits)
  have s': "s = d @ w @ c # (u' @ rest)" using s u by simp
  show "takeWhile isDigit s = d"
    unfolding s' by (rule number_blank_letter(1) [OF h(1,2) nc])
  show "first_upper (rest_after s) = Some (if k = 60 then 77 else 72)"
    unfolding s' number_blank_letter(2) [OF h(1,2) nc] using c by (simp add: first_upper_def)
  show "k = 60 \<or> k = 3600" by (rule k)
qed

lemma phrase_unique:
  assumes "phrase_at s d k" "phrase_at s d' k'"
  shows "d = d' \<and> k = k'"
proof -
  have "d = d'" using phrase_canon(1) [OF assms(1)] phrase_canon(1) [OF assms(2)] by simp
  moreover have "k = k'"
    using phrase_canon(2,3) [OF assms(1)] phrase_canon(2,3) [OF assms(2)]
    by (auto split: if_splits)
  ultimately show ?thesis ..
qed

lemma range_canon:
  assumes "s = n @ w1 @ to @ w2 @ s'" "is_number n" "blank w1" "same_word to (js ''to'')" "blank w2"
    "phrase_at s' d k"
  shows "first_upper (rest_after s) = Some 84" "dropWhile isSpace (drop 2 (rest_after s)) = s'"
proof -
  from to_first [OF assms(4)] obtain a b where to: "to = [a, b]" and a: "upperChar a = 84" by blast
  have na: "\<not> isDigit a" "\<not> isSpace a" using letter_not_digit_space [of a] a by simp_all
  have s: "s = n @ w1 @ a # (b # w2 @ s')" using assms(1) to by simp
  have r: "rest_after s = a # b # w2 @ s'"
    unfolding s by (rule number_blank_letter(2) [OF assms(2,3) na])
  show "first_upper (rest_after s) = Some 84" using r a by (simp add: first_upper_def)
  from assms(6) obtain w u rest where s': "s' = d @ w @ u @ rest" and d: "is_number d"
    unfolding phrase_at_def by blast
  from d obtain c d' where "d = c # d'" "isDigit c" by (cases d) (auto simp: is_number_def)
  then have "s' = [] \<or> \<not> isSpace (hd s')" using s' digit_not_space by simp
  moreover have "list_all isSpace w2" using assms(5) by (simp add: blank_def)
  ultimately have "dropWhile isSpace (w2 @ s') = s'" by (rule while_stop(2) [rotated])
  then show "dropWhile isSpace (drop 2 (rest_after s)) = s'" using r by simp
qed

lemma pattern_unique:
  assumes "pattern_at s d k" "pattern_at s d' k'"
  shows "d = d' \<and> k = k'"
proof -
  have short_long: False
    if p: "phrase_at s d1 k1" and
       l: "s = n @ w1 @ to @ w2 @ s'" "is_number n" "blank w1" "same_word to (js ''to'')" "blank w2"
          "phrase_at s' d2 k2"
    for d1 k1 d2 k2 n w1 to w2 s'
    using phrase_canon(2) [OF p] range_canon(1) [OF l] by (simp split: if_splits)
  have long_long: "d1 = d2 \<and> k1 = k2"
    if l1: "s = n @ w1 @ to @ w2 @ s'" "is_number n" "blank w1" "same_word to (js ''to'')" "blank w2"
          "phrase_at s' d1 k1" and
       l2: "s = m @ v1 @ to' @ v2 @ s''" "is_number m" "blank v1" "same_word to' (js ''to'')" "blank v2"
          "phrase_at s'' d2 k2"
    for d1 k1 d2 k2 n w1 to w2 s' m v1 to' v2 s''
  proof -
    have "s' = s''" using range_canon(2) [OF l1] range_canon(2) [OF l2] by simp
    then show ?thesis using phrase_unique l1(6) l2(6) by blast
  qed
  from assms show ?thesis
    unfolding pattern_at_iff
    using phrase_unique short_long long_long by (elim disjE exE conjE) blast+
qed

text \<open>The scan over the positions.\<close>

lemma match_None:
  "match' s = None \<Longrightarrow> i \<le> length s \<Longrightarrow> timeRegex_at (drop i s) = []"
proof (induction s arbitrary: i)
  case Nil
  then show ?case by (simp split: list.splits)
next
  case (Cons c cs)
  from Cons.prems(1) have e: "timeRegex_at (c # cs) = []" and n: "match' cs = None"
    by (simp_all split: list.splits)
  show ?case
  proof (cases i)
    case 0
    then show ?thesis using e by simp
  next
    case (Suc i')
    then show ?thesis using Cons.IH [OF n, of i'] Cons.prems(2) by simp
  qed
qed

lemma match_Some:
  "match' s = Some m \<Longrightarrow>
   \<exists>i \<le> length s. m \<in> set (timeRegex_at (drop i s)) \<and> (\<forall>j < i. timeRegex_at (drop j s) = [])"
proof (induction s)
  case Nil
  then have "m \<in> set (timeRegex_at (drop 0 []))" by (simp split: list.splits)
  then show ?case by blast
next
  case (Cons c cs)
  show ?case
  proof (cases "timeRegex_at (c # cs)")
    case Nil
    with Cons.prems have "match' cs = Some m" by simp
    from Cons.IH [OF this] obtain i where i: "i \<le> length cs" "m \<in> set (timeRegex_at (drop i cs))"
      "\<forall>j < i. timeRegex_at (drop j cs) = []" by blast
    have "\<forall>j < Suc i. timeRegex_at (drop j (c # cs)) = []"
    proof (intro allI impI)
      fix j assume "j < Suc i"
      then show "timeRegex_at (drop j (c # cs)) = []"
        using Nil i(3) by (cases j) simp_all
    qed
    moreover have "Suc i \<le> length (c # cs)" "m \<in> set (timeRegex_at (drop (Suc i) (c # cs)))"
      using i by simp_all
    ultimately show ?thesis by blast
  next
    case (Cons m' ms)
    with Cons.prems have "m \<in> set (timeRegex_at (drop 0 (c # cs)))" by simp
    then show ?thesis by (intro exI [of _ 0]) simp
  qed
qed

lemma pattern_number: "pattern_at s d k \<Longrightarrow> is_number d"
  unfolding pattern_at_iff phrase_at_def by blast

lemma parseInt10_number:
  assumes "is_number d"
  shows "parseInt10 d = as_number (digitsValue d)"
proof -
  from assms have "\<forall>x \<in> set d. isDigit x" and ne: "d \<noteq> []"
    by (simp_all add: is_number_def list_all_iff)
  then have t: "takeWhile isDigit d = d" by (simp add: takeWhile_eq_all_conv)
  show ?thesis unfolding parseInt10_def Let_def t using ne by simp
qed

lemma parse_match:
  "match' s = Some (g1, g2, g3) \<Longrightarrow>
   parseInstructionForTime s = (s, Some (times' (parseInt10 g2) (k_of g3)))"
  by (simp add: parseInstructionForTime_def k_of_def Let_def)

lemma parse_first:
  assumes "first_occurrence s d k"
  shows "parseInstructionForTime s = (s, Some (times' (as_number (digitsValue d)) k))"
proof -
  from assms obtain i where i: "i \<le> length s" "pattern_at (drop i s) d k" and
    least: "\<forall>j < i. \<forall>d' k'. \<not> occurs_at s j d' k'"
    unfolding first_occurrence_def occurs_at_def by blast
  have ne: "timeRegex_at (drop i s) \<noteq> []" using regex_complete [OF i(2)] .
  have "match' s \<noteq> None" using match_None [of s i] i(1) ne by blast
  then obtain g1 g2 g3 where m: "match' s = Some (g1, g2, g3)" by (cases "match' s") auto
  from match_Some [OF m] obtain i0 where i0: "i0 \<le> length s"
    "(g1, g2, g3) \<in> set (timeRegex_at (drop i0 s))" "\<forall>j < i0. timeRegex_at (drop j s) = []"
    by blast
  have p0: "pattern_at (drop i0 s) g2 (k_of g3)" using regex_sound [OF i0(2)] .
  have "\<not> i0 < i" using least i0(1) p0 unfolding occurs_at_def by blast
  moreover have "\<not> i < i0" using i0(3) ne by blast
  ultimately have "i0 = i" by simp
  with p0 i(2) have "g2 = d \<and> k_of g3 = k" using pattern_unique by blast
  moreover have "parseInt10 d = as_number (digitsValue d)"
    using pattern_number [OF i(2)] by (rule parseInt10_number)
  ultimately show ?thesis using parse_match [OF m] by simp
qed

lemma parse_none:
  assumes "\<forall>i d k. \<not> occurs_at s i d k"
  shows "parseInstructionForTime s = (s, None)"
proof (cases "match' s")
  case None
  then show ?thesis by (simp add: parseInstructionForTime_def)
next
  case (Some m)
  obtain g1 g2 g3 where "m = (g1, g2, g3)" by (cases m)
  with match_Some [OF Some] obtain i where "i \<le> length s" "(g1, g2, g3) \<in> set (timeRegex_at (drop i s))"
    by blast
  then have "occurs_at s i g2 (k_of g3)" using regex_sound unfolding occurs_at_def by blast
  with assms show ?thesis by blast
qed

lemma first_or_none:
  "(\<exists>d k. first_occurrence s d k) \<or> (\<forall>i d k. \<not> occurs_at s i d k)"
proof (cases "\<exists>i. \<exists>d k. occurs_at s i d k")
  case True
  then obtain i where "(\<exists>d k. occurs_at s i d k) \<and> (\<forall>j < i. \<not> (\<exists>d k. occurs_at s j d k))"
    using exists_least_iff [of "\<lambda>i. \<exists>d k. occurs_at s i d k"] by blast
  then show ?thesis unfolding first_occurrence_def by blast
next
  case False
  then show ?thesis by blast
qed

lemma parse_text: "fst (parseInstructionForTime s) = s"
  by (simp add: parseInstructionForTime_def Let_def split: option.splits prod.splits)

text \<open>
  C3. For every instruction string the parser returns the text unchanged. When the pattern
  \<open>[<N> to] <N> (minute(s)|hour(s))\<close> occurs in it, the duration is the second number of
  the occurrence at the first position that has one, times 3600 for hours and times 60 for
  minutes; when the pattern occurs nowhere there is no duration; and one of the two is the
  case. \<open>Simmer for 10 minutes\<close> gives 600, \<open>Bake for 1 hour\<close> gives 3600,
  \<open>Let rest 5 to 10 minutes\<close> gives 600 and \<open>Add salt to taste\<close> gives no duration.
\<close>

theorem instruction_time:
  "fst (parseInstructionForTime s) = s \<and>
   (\<forall>d k. first_occurrence s d k \<longrightarrow>
      snd (parseInstructionForTime s) = Some (times' (as_number (digitsValue d)) k)) \<and>
   ((\<forall>i d k. \<not> occurs_at s i d k) \<longrightarrow> snd (parseInstructionForTime s) = None) \<and>
   ((\<exists>d k. first_occurrence s d k) \<or> (\<forall>i d k. \<not> occurs_at s i d k)) \<and>
   parseInstructionForTime (js ''Simmer for 10 minutes'') = (js ''Simmer for 10 minutes'', Some (Integer 600)) \<and>
   parseInstructionForTime (js ''Bake for 1 hour'') = (js ''Bake for 1 hour'', Some (Integer 3600)) \<and>
   parseInstructionForTime (js ''Let rest 5 to 10 minutes'') = (js ''Let rest 5 to 10 minutes'', Some (Integer 600)) \<and>
   parseInstructionForTime (js ''Add salt to taste'') = (js ''Add salt to taste'', None)"
proof -
  have e1: "parseInstructionForTime (js ''Simmer for 10 minutes'') = (js ''Simmer for 10 minutes'', Some (Integer 600))"
    by (simp add: parse_defs)
  have e2: "parseInstructionForTime (js ''Bake for 1 hour'') = (js ''Bake for 1 hour'', Some (Integer 3600))"
    by (simp add: parse_defs)
  have e3: "parseInstructionForTime (js ''Let rest 5 to 10 minutes'') = (js ''Let rest 5 to 10 minutes'', Some (Integer 600))"
    by (simp add: parse_defs)
  have e4: "parseInstructionForTime (js ''Add salt to taste'') = (js ''Add salt to taste'', None)"
    by (simp add: parse_defs)
  show ?thesis
    using parse_text [of s] parse_first [of s] parse_none [of s] first_or_none [of s] e1 e2 e3 e4
    by simp
qed

theorem instruction_time_witness:
  "first_occurrence (js ''Cook 5 to 10 minutes'') (js ''10'') 60 \<and>
   snd (parseInstructionForTime (js ''Cook 5 to 10 minutes'')) = Some (Integer 600) \<and>
   (\<forall>i d k. \<not> occurs_at (js ''Add salt to taste'') i d k) \<and>
   snd (parseInstructionForTime (js ''Add salt to taste'')) = None"
proof -
  let ?s = "js ''Cook 5 to 10 minutes''"
  have m: "(Some (js ''5''), js ''10'', js ''minute'') \<in> set (timeRegex_at (drop 5 ?s))"
    by (simp add: parse_defs)
  have k: "k_of (js ''minute'') = 60"
    by (simp add: k_of_def toLowerCase_def lowerChar_def startsWith_def js_def)
  have o: "occurs_at ?s 5 (js ''10'') 60"
    using regex_sound [OF m] k by (simp add: occurs_at_def js_def)
  have e: "timeRegex_at (drop j ?s) = []" if "j < 5" for j
  proof -
    from that have "j = 0 \<or> j = 1 \<or> j = 2 \<or> j = 3 \<or> j = 4" by arith
    then show ?thesis by (elim disjE) (simp_all add: parse_defs)
  qed
  have "\<not> occurs_at ?s j d' k'" if "j < 5" for j d' k'
    using e [OF that] regex_complete [of "drop j ?s" d' k'] by (auto simp: occurs_at_def)
  with o have f: "first_occurrence ?s (js ''10'') 60"
    unfolding first_occurrence_def by blast
  let ?t = "js ''Add salt to taste''"
  have n: "match' ?t = None" by (simp add: parse_defs)
  have no: "\<forall>i d k. \<not> occurs_at ?t i d k"
    using match_None [OF n] regex_complete unfolding occurs_at_def by blast
  have v: "times' (as_number (digitsValue (js ''10''))) 60 = Integer 600"
    by (simp add: times'_def as_number_def digitsValue_def js_def)
  from instruction_time [of ?s] instruction_time [of ?t] f no v show ?thesis by simp
qed


subsection \<open>The shareable link\<close>

lemmas share_defs = generateShareableLink_def JSON_stringify_def jsonMember_def stringifyStrings_def
  quoteJSONString_def escapeChar_def isLeadingSurrogate_def isTrailingSurrogate_def btoa_def
  base64Char_def example_recipe_def example_origin_def example_encoded_def js_def Let_def

text \<open>
  C9 fails on the code. A recipe whose name holds a character above U+00FF (here
  \<open>Ph\<close> followed by U+1EDF) makes \<open>btoa\<close> throw, so no link is made. A recipe whose
  base64 text holds a \<open>+\<close> (here from the \<open>~\<close> of its description) gets a link, but the
  parameter read back from it has a space for the \<open>+\<close> and \<open>atob\<close> fails on it, although
  the text of the link itself decodes to the serialized recipe.
\<close>

theorem share_link_fails:
  "generateShareableLink example_origin (js ''/'') (example_recipe\<lparr>recipeName := [80, 104, 7903]\<rparr>)
     = Inl InvalidCharacterError \<and>
   generateShareableLink example_origin (js ''/'') (example_recipe\<lparr>description := js ''Warm soup, ~15 minutes''\<rparr>)
     = Inr (example_origin @ js ''/'' @ js ''?recipe='' @ example_encoded) \<and>
   atob (searchParamValue example_encoded) = Inl InvalidCharacterError \<and>
   atob example_encoded = Inr (JSON_stringify (example_recipe\<lparr>description := js ''Warm soup, ~15 minutes''\<rparr>))"
proof -
  have 1: "generateShareableLink example_origin (js ''/'') (example_recipe\<lparr>recipeName := [80, 104, 7903]\<rparr>)
     = Inl InvalidCharacterError"
    by (simp add: share_defs)
  have 2: "generateShareableLink example_origin (js ''/'') (example_recipe\<lparr>description := js ''Warm soup, ~15 minutes''\<rparr>)
     = Inr (example_origin @ js ''/'' @ js ''?recipe='' @ example_encoded)"
    by (simp add: share_defs)
  have 3: "atob (searchParamValue example_encoded) = Inl InvalidCharacterError"
    by (simp add: atob_def searchParamValue_def example_encoded_def js_def stripPadding_def base64Value_def)
  have 4: "atob example_encoded = Inr (JSON_stringify (example_recipe\<lparr>description := js ''Warm soup, ~15 minutes''\<rparr>))"
    by (simp add: atob_def stripPadding_def base64Value_def share_defs)
  from 1 2 3 4 show ?thesis by simp
qed


end
